theory Spec2Isabelle
  imports Complex_Main "HOL-Library.Sublist" "HOL-Library.Char_ord" "HOL-Library.List_Lexorder"
    "HOL-Library.AList"
begin

section \<open>Fuzzy name matcher (\<^verbatim>\<open>kimm/_src/utils/model_registry.py\<close>)\<close>

text \<open>
  Python strings are modelled as \<^typ>\<open>string\<close>. \<^verbatim>\<open>str.lower\<close> is modelled on the
  ASCII letters: the capitals \<^verbatim>\<open>A\<close> to \<^verbatim>\<open>Z\<close> (codes 65 to 90) move to the
  small letters, every other character stays.
\<close>

definition lower_char :: "char \<Rightarrow> char" where
  "lower_char c =
     (let n = (of_char c :: nat) in if 65 \<le> n \<and> n \<le> 90 then char_of (n + 32) else c)"

definition lower :: "string \<Rightarrow> string" where
  "lower s = map lower_char s"

text \<open>\<^verbatim>\<open>s.replace(ch, "")\<close> for a one-character \<^verbatim>\<open>ch\<close>: every occurrence is dropped.\<close>

definition replace_char_empty :: "char \<Rightarrow> string \<Rightarrow> string" where
  "replace_char_empty ch s = filter (\<lambda>c. c \<noteq> ch) s"

text \<open>
  The inner loop of \<^verbatim>\<open>_match_string\<close> over \<^verbatim>\<open>enumerate(target)\<close>. The state is
  \<^verbatim>\<open>(matched_idx, matched)\<close>; the loop breaks as soon as \<^verbatim>\<open>matched\<close> is set.
\<close>

fun scan_target :: "char \<Rightarrow> (nat \<times> char) list \<Rightarrow> int \<times> bool \<Rightarrow> int \<times> bool" where
  "scan_target q_char [] (matched_idx, matched) = (matched_idx, matched)"
| "scan_target q_char ((idx, t_char) # rest) (matched_idx, matched) =
     (if matched then (matched_idx, matched)
      else if q_char = t_char \<and> int idx > matched_idx
        then scan_target q_char rest (int idx, True)
        else scan_target q_char rest (matched_idx, matched))"

text \<open>The outer loop over the characters of the query; \<^verbatim>\<open>return False\<close> leaves it early.\<close>

fun match_loop :: "string \<Rightarrow> (nat \<times> char) list \<Rightarrow> int \<Rightarrow> bool" where
  "match_loop [] target matched_idx = True"
| "match_loop (q_char # query) target matched_idx =
     (case scan_target q_char target (matched_idx, False) of
        (matched_idx', matched) \<Rightarrow>
          if \<not> matched then False else match_loop query target matched_idx')"

definition normalize_query :: "string \<Rightarrow> string" where
  "normalize_query query =
     replace_char_empty (CHR ''.'') (replace_char_empty (CHR ''_'')
       (replace_char_empty (CHR '' '') (lower query)))"

definition match_string :: "string \<Rightarrow> string \<Rightarrow> bool" where
  "match_string query target =
     match_loop (normalize_query query) (enumerate 0 (lower target)) (- 1)"


section \<open>Model registry (\<^verbatim>\<open>kimm/_src/utils/model_registry.py\<close>)\<close>

datatype error = ValueError | UnboundLocalError

text \<open>One dictionary of \<^verbatim>\<open>MODEL_REGISTRY\<close>, with its four keys.\<close>

record registry_entry =
  info_name :: string
  info_feature_extractor :: bool
  info_feature_keys :: "string list"
  info_weights :: "string option"

text \<open>
  What \<^verbatim>\<open>add_model_to_registry\<close> reads of the class it is given: the name of its
  module, its own name, whether it is a subclass of \<^verbatim>\<open>BaseModel\<close>, and its
  \<^verbatim>\<open>available_feature_keys\<close>.
\<close>

record model_cls =
  cls_module :: string
  cls_name :: string
  is_base_model :: bool
  available_feature_keys :: "string list"

text \<open>
  The \<^verbatim>\<open>weights\<close> argument of a registration: \<^verbatim>\<open>None\<close>, a string, or any
  other object (the case the function rejects).
\<close>

datatype weights_arg = WNone | WStr string | WOther

text \<open>The \<^verbatim>\<open>weights\<close> filter of \<^verbatim>\<open>list_models\<close> once it is not \<^verbatim>\<open>None\<close>.\<close>

datatype weights_filter = FBool bool | FStr string

text \<open>
  The process state the two functions touch: the registry list, the \<^verbatim>\<open>__all__\<close>
  attribute of every loaded module (\<open>None\<close> when the module has none), and the warnings
  issued so far. A class's defining module is taken to be loaded.
\<close>

record py_state =
  MODEL_REGISTRY :: "registry_entry list"
  module_all :: "string \<Rightarrow> string list option"
  warnings :: "string list"

definition clear_registry :: "py_state \<Rightarrow> py_state" where
  "clear_registry st = st\<lparr>MODEL_REGISTRY := []\<rparr>"

definition duplicate_warnings :: "registry_entry list \<Rightarrow> string \<Rightarrow> string list" where
  "duplicate_warnings registry nm =
     map (\<lambda>info. ''MODEL_REGISTRY already contains name='' @ nm @ ''!'')
       (filter (\<lambda>info. info_name info = nm) registry)"

text \<open>
  The result is the exception raised, if any, and the state left behind: the updates made
  before a \<^verbatim>\<open>raise\<close> stay.
\<close>

definition add_model_to_registry ::
  "model_cls \<Rightarrow> weights_arg \<Rightarrow> py_state \<Rightarrow> error option \<times> py_state" where
  "add_model_to_registry cls weights st =
     (let module = cls_module cls;
          model_name = cls_name cls;
          st1 = st\<lparr>module_all := (module_all st)(module :=
                  (case module_all st module of
                     Some all_names \<Rightarrow> Some (all_names @ [model_name])
                   | None \<Rightarrow> Some [model_name]))\<rparr>;
          feature_extractor = is_base_model cls;
          feature_keys = (if is_base_model cls then available_feature_keys cls else []);
          st2 = st1\<lparr>warnings := warnings st1 @ duplicate_warnings (MODEL_REGISTRY st1) (cls_name cls)\<rparr>;
          append_entry = (\<lambda>w. st2\<lparr>MODEL_REGISTRY := MODEL_REGISTRY st2 @
                  [\<lparr>info_name = cls_name cls, info_feature_extractor = feature_extractor,
                    info_feature_keys = feature_keys, info_weights = w\<rparr>]\<rparr>)
      in case weights of
           WNone \<Rightarrow> (None, append_entry None)
         | WOther \<Rightarrow> (Some ValueError, st2)
         | WStr w \<Rightarrow> (None, append_entry (Some (lower w))))"

text \<open>
  \<^verbatim>\<open>info["weights"] != weights\<close>: a stored tag (\<^verbatim>\<open>None\<close> or a string) never equals
  a boolean, and equals a string filter only when it is that very string.
\<close>

fun weights_differ :: "string option \<Rightarrow> weights_filter \<Rightarrow> bool" where
  "weights_differ iw (FBool b) = True"
| "weights_differ iw (FStr s) = (iw \<noteq> Some s)"

text \<open>The body of the loop of \<^verbatim>\<open>list_models\<close> for one entry: the value of \<^verbatim>\<open>need_remove\<close>.\<close>

definition need_remove ::
  "string option \<Rightarrow> bool option \<Rightarrow> weights_filter option \<Rightarrow> registry_entry \<Rightarrow> bool" where
  "need_remove name_arg feature_extractor weights info =
     (let r0 = False;
          r1 = (case name_arg of None \<Rightarrow> r0
                | Some n \<Rightarrow> \<not> match_string n (info_name info));
          r2 = (case feature_extractor of None \<Rightarrow> r1
                | Some f \<Rightarrow> if info_feature_extractor info \<noteq> f then True else r1)
      in case weights of None \<Rightarrow> r2
         | Some w \<Rightarrow>
             if weights_differ (info_weights info) w then
               (if w = FBool True \<and> info_weights info = None then True
                else if w = FBool False \<and> info_weights info \<noteq> None then True
                else (case w of
                        FStr s \<Rightarrow> if Some (lower s) \<noteq> info_weights info then True else r2
                      | FBool b \<Rightarrow> r2))
             else r2)"

fun list_models_loop ::
  "string option \<Rightarrow> bool option \<Rightarrow> weights_filter option \<Rightarrow> registry_entry list \<Rightarrow>
   string set \<Rightarrow> string set" where
  "list_models_loop name_arg feature_extractor weights [] result_names = result_names"
| "list_models_loop name_arg feature_extractor weights (info # rest) result_names =
     (let added = insert (info_name info) result_names;
          kept = (if need_remove name_arg feature_extractor weights info
                  then added - {info_name info} else added)
      in list_models_loop name_arg feature_extractor weights rest kept)"

text \<open>
  \<^verbatim>\<open>sorted(result_names)\<close>: Python orders strings lexicographically by code point, which
  is the order of \<^typ>\<open>char list\<close> here.
\<close>

definition list_models ::
  "string option \<Rightarrow> bool option \<Rightarrow> weights_filter option \<Rightarrow> py_state \<Rightarrow> string list" where
  "list_models name_arg feature_extractor weights st =
     sorted_list_of_set
       (list_models_loop name_arg feature_extractor weights (MODEL_REGISTRY st) {})"


section \<open>Channel rounding (\<^verbatim>\<open>kimm/_src/utils/make_divisble.py\<close>)\<close>

text \<open>
  Python floats are modelled as exact rationals; rounding error of the floating-point
  operations is not modelled.
\<close>

text \<open>
  Modelled from the spec: the file defining \<^verbatim>\<open>make_divisible\<close> is not among the sources.
  \<^verbatim>\<open>rounded = max(min_value or divisor, floor(value + divisor/2) // divisor * divisor)\<close>,
  bumped by \<^verbatim>\<open>divisor\<close> when \<^verbatim>\<open>rounded < round_limit * value\<close>. Python's
  \<^verbatim>\<open>min_value or divisor\<close> takes \<^verbatim>\<open>divisor\<close> when \<^verbatim>\<open>min_value\<close> is
  \<^verbatim>\<open>None\<close> or \<^verbatim>\<open>0\<close>.
\<close>

definition make_divisible_full :: "rat \<Rightarrow> int \<Rightarrow> int option \<Rightarrow> rat \<Rightarrow> int" where
  "make_divisible_full v divisor min_value round_limit =
     (let lower_bound = (case min_value of None \<Rightarrow> divisor
                         | Some m \<Rightarrow> if m = 0 then divisor else m);
          rounded = max lower_bound (\<lfloor>v + of_int divisor / 2\<rfloor> div divisor * divisor)
      in if of_int rounded < round_limit * v then rounded + divisor else rounded)"

text \<open>
  Modelled from the spec: the call with the default arguments, \<^verbatim>\<open>divisor=8\<close>,
  \<^verbatim>\<open>min_value=None\<close> and \<^verbatim>\<open>round_limit=0.9\<close>, which is the only one the sources make.
\<close>

definition make_divisible :: "rat \<Rightarrow> int" where
  "make_divisible v = make_divisible_full v 8 None (9 / 10)"

section \<open>Symbolic tensors and layer primitives\<close>

text \<open>
  A Keras tensor is modelled by what the construction code reads and builds: the size of
  its channel axis and the chain of layer applications that produced it. \<open>Add n\<close> adds the
  tensor that stood after the first \<open>n\<close> layers of the chain (the skip connection).
  The pass-through arguments \<^verbatim>\<open>bn_epsilon\<close> and \<^verbatim>\<open>padding\<close> are left out.
\<close>

datatype layer =
    Conv2DBlock "int option" int int "string option" bool string
  | SEBlock rat "string option" "string option" "int option" "int option" string
  | Add nat
  | GlobalAveragePooling2D string bool
  | GlobalMaxPooling2D string
  | Conv2D int int int bool string
  | Activation string string
  | Flatten
  | Dropout rat string
  | Dense int "string option" string

record tensor =
  shape_channels :: int
  graph :: "layer list"

text \<open>
  Modelled from the spec: \<^verbatim>\<open>apply_conv2d_block\<close> (\<^verbatim>\<open>kimm/_src/blocks/conv2d.py\<close>) is not
  among the sources. It is an opaque layer application with arguments filters, kernel size,
  strides, activation, \<^verbatim>\<open>use_depthwise\<close> and name; the output has \<^verbatim>\<open>filters\<close>
  channels, or the input's when no filter count is given (the depthwise case).
\<close>

definition apply_conv2d_block ::
  "tensor \<Rightarrow> int option \<Rightarrow> int \<Rightarrow> int \<Rightarrow> string option \<Rightarrow> bool \<Rightarrow> string \<Rightarrow> tensor" where
  "apply_conv2d_block inputs filters kernel_size strides activation use_depthwise name =
     \<lparr>shape_channels = (case filters of None \<Rightarrow> shape_channels inputs | Some f \<Rightarrow> f),
      graph = graph inputs @ [Conv2DBlock filters kernel_size strides activation use_depthwise name]\<rparr>"

text \<open>
  Modelled from the spec: \<^verbatim>\<open>apply_se_block\<close>
  (\<^verbatim>\<open>kimm/_src/blocks/squeeze_and_excitation.py\<close>) is not among the sources. It is an
  opaque layer application that keeps the channel count.
\<close>

definition apply_se_block ::
  "tensor \<Rightarrow> rat \<Rightarrow> string option \<Rightarrow> string option \<Rightarrow> int option \<Rightarrow> int option \<Rightarrow> string \<Rightarrow> tensor" where
  "apply_se_block inputs se_ratio activation gate_activation se_input_channels
       make_divisible_number name =
     inputs\<lparr>graph := graph inputs @
       [SEBlock se_ratio activation gate_activation se_input_channels make_divisible_number name]\<rparr>"

text \<open>\<^verbatim>\<open>layers.Add()([x, inputs])\<close>.\<close>

definition add_inputs :: "tensor \<Rightarrow> tensor \<Rightarrow> tensor" where
  "add_inputs x inputs = x\<lparr>graph := graph x @ [Add (length (graph inputs))]\<rparr>"

text \<open>A keyword layer applied to a tensor; the second argument is the new channel count.\<close>

definition apply_layer :: "layer \<Rightarrow> int \<Rightarrow> tensor \<Rightarrow> tensor" where
  "apply_layer l ch x = \<lparr>shape_channels = ch, graph = graph x @ [l]\<rparr>"

text \<open>Python's \<^verbatim>\<open>a or b\<close> on an optional string: \<^verbatim>\<open>None\<close> and \<^verbatim>\<open>""\<close> are falsy.\<close>

definition str_or :: "string option \<Rightarrow> string \<Rightarrow> string" where
  "str_or a b = (case a of None \<Rightarrow> b | Some v \<Rightarrow> if v = [] then b else v)"

section \<open>Block builders (\<^verbatim>\<open>kimm/_src/blocks\<close>)\<close>

definition apply_depthwise_separation_block ::
  "tensor \<Rightarrow> int \<Rightarrow> int \<Rightarrow> int \<Rightarrow> int \<Rightarrow> rat \<Rightarrow> string option \<Rightarrow> string option \<Rightarrow>
   string option \<Rightarrow> int option \<Rightarrow> string option \<Rightarrow> bool \<Rightarrow> string \<Rightarrow> error + tensor" where
  "apply_depthwise_separation_block inputs filters depthwise_kernel_size pointwise_kernel_size
       strides se_ratio activation se_activation se_gate_activation se_make_divisible_number
       pw_activation has_skip name =
     (let input_filters = shape_channels inputs in
      if has_skip \<and> (strides \<noteq> 1 \<or> input_filters \<noteq> filters) then Inl ValueError
      else
        let x = inputs;
            x = apply_conv2d_block x None depthwise_kernel_size strides activation True
                  (name @ ''_conv_dw'');
            x = (if se_ratio > 0
                 then apply_se_block x se_ratio se_activation se_gate_activation None
                        se_make_divisible_number (name @ ''_se'')
                 else x);
            x = apply_conv2d_block x (Some filters) pointwise_kernel_size 1 pw_activation False
                  (name @ ''_conv_pw'');
            x = (if has_skip then add_inputs x inputs else x)
        in Inr x)"

definition apply_inverted_residual_block ::
  "tensor \<Rightarrow> int \<Rightarrow> int \<Rightarrow> int \<Rightarrow> int \<Rightarrow> int \<Rightarrow> rat \<Rightarrow> rat \<Rightarrow> string \<Rightarrow> int option \<Rightarrow>
   string option \<Rightarrow> string option \<Rightarrow> int option \<Rightarrow> string \<Rightarrow> error + tensor" where
  "apply_inverted_residual_block inputs filters depthwise_kernel_size expansion_kernel_size
       pointwise_kernel_size strides expansion_ratio se_ratio activation se_channels
       se_activation se_gate_activation se_make_divisible_number name =
     (let input_channels = shape_channels inputs;
          hidden_channels = make_divisible (of_int input_channels * expansion_ratio);
          has_skip = (strides = 1 \<and> input_channels = filters);
          x = inputs;
          x = apply_conv2d_block x (Some hidden_channels) expansion_kernel_size 1
                (Some activation) False (name @ ''_conv_pw'');
          x = apply_conv2d_block x None depthwise_kernel_size strides (Some activation) True
                (name @ ''_conv_dw'');
          x = (if se_ratio > 0
               then apply_se_block x se_ratio (Some (str_or se_activation activation))
                      se_gate_activation se_channels se_make_divisible_number (name @ ''_se'')
               else x);
          x = apply_conv2d_block x (Some filters) pointwise_kernel_size 1 None False
                (name @ ''_conv_pwl'');
          x = (if has_skip then add_inputs x inputs else x)
      in Inr x)"

text \<open>
  The two builders that \<^verbatim>\<open>kimm/models/mobilenet_v3.py\<close> defines for itself: neither takes a
  \<^verbatim>\<open>has_skip\<close> flag, neither raises.
\<close>

definition legacy_depthwise_separation_block ::
  "tensor \<Rightarrow> int \<Rightarrow> int \<Rightarrow> int \<Rightarrow> int \<Rightarrow> rat \<Rightarrow> string \<Rightarrow> string \<Rightarrow> tensor" where
  "legacy_depthwise_separation_block inputs output_channels depthwise_kernel_size
       pointwise_kernel_size strides se_ratio activation name =
     (let input_channels = shape_channels inputs;
          has_skip = (strides = 1 \<and> input_channels = output_channels);
          x = inputs;
          x = apply_conv2d_block x None depthwise_kernel_size strides (Some activation) True
                (name @ ''_conv_dw'');
          x = (if se_ratio > 0
               then apply_se_block x se_ratio (Some ''relu'') (Some ''hard_sigmoid'') None
                      (Some 8) (name @ ''_se'')
               else x);
          x = apply_conv2d_block x (Some output_channels) pointwise_kernel_size 1 None False
                (name @ ''_conv_pw'')
      in if has_skip then add_inputs x inputs else x)"

definition legacy_inverted_residual_block ::
  "tensor \<Rightarrow> int \<Rightarrow> int \<Rightarrow> int \<Rightarrow> int \<Rightarrow> int \<Rightarrow> rat \<Rightarrow> rat \<Rightarrow> string \<Rightarrow> string \<Rightarrow> tensor" where
  "legacy_inverted_residual_block inputs output_channels depthwise_kernel_size
       expansion_kernel_size pointwise_kernel_size strides expansion_ratio se_ratio activation
       name =
     (let input_channels = shape_channels inputs;
          hidden_channels = make_divisible (of_int input_channels * expansion_ratio);
          has_skip = (strides = 1 \<and> input_channels = output_channels);
          x = inputs;
          x = apply_conv2d_block x (Some hidden_channels) expansion_kernel_size 1
                (Some activation) False (name @ ''_conv_pw'');
          x = apply_conv2d_block x None depthwise_kernel_size strides (Some activation) True
                (name @ ''_conv_dw'');
          x = (if se_ratio > 0
               then apply_se_block x se_ratio (Some ''relu'') (Some ''hard_sigmoid'') None
                      (Some 8) (name @ ''_se'')
               else x);
          x = apply_conv2d_block x (Some output_channels) pointwise_kernel_size 1 None False
                (name @ ''_conv_pwl'')
      in if has_skip then add_inputs x inputs else x)"


section \<open>Architecture compiler (\<^verbatim>\<open>MobileNetV3.__init__\<close>)\<close>

text \<open>
  One entry of a stage: \<^verbatim>\<open>[type, repeat, kernel_size, strides, expansion_ratio, channels,
  se_ratio, activation]\<close>.
\<close>

type_synonym sub_cfg = "string \<times> int \<times> int \<times> int \<times> rat \<times> int \<times> rat \<times> string"

definition DEFAULT_SMALL_CONFIG :: "sub_cfg list list" where
  "DEFAULT_SMALL_CONFIG =
     [[(''ds'', 1, 3, 2, 1, 16, 1 / 4, ''relu'')],
      [(''ir'', 1, 3, 2, 9 / 2, 24, 0, ''relu''),
       (''ir'', 1, 3, 1, 367 / 100, 24, 0, ''relu'')],
      [(''ir'', 1, 5, 2, 4, 40, 1 / 4, ''hard_swish''),
       (''ir'', 2, 5, 1, 6, 40, 1 / 4, ''hard_swish'')],
      [(''ir'', 2, 5, 1, 3, 48, 1 / 4, ''hard_swish'')],
      [(''ir'', 3, 5, 2, 6, 96, 1 / 4, ''hard_swish'')],
      [(''cn'', 1, 1, 1, 1, 576, 0, ''hard_swish'')]]"

definition DEFAULT_LARGE_CONFIG :: "sub_cfg list list" where
  "DEFAULT_LARGE_CONFIG =
     [[(''ds'', 1, 3, 1, 1, 16, 0, ''relu'')],
      [(''ir'', 1, 3, 2, 4, 24, 0, ''relu''),
       (''ir'', 1, 3, 1, 3, 24, 0, ''relu'')],
      [(''ir'', 3, 5, 2, 3, 40, 1 / 4, ''relu'')],
      [(''ir'', 1, 3, 2, 6, 80, 0, ''hard_swish''),
       (''ir'', 1, 3, 1, 5 / 2, 80, 0, ''hard_swish''),
       (''ir'', 2, 3, 1, 23 / 10, 80, 0, ''hard_swish'')],
      [(''ir'', 2, 3, 1, 6, 112, 1 / 4, ''hard_swish'')],
      [(''ir'', 3, 5, 2, 6, 160, 1 / 4, ''hard_swish'')],
      [(''cn'', 1, 1, 1, 1, 960, 0, ''hard_swish'')]]"

definition DEFAULT_LCNET_CONFIG :: "sub_cfg list list" where
  "DEFAULT_LCNET_CONFIG =
     [[(''dsa'', 1, 3, 1, 1, 32, 0, ''hard_swish'')],
      [(''dsa'', 2, 3, 2, 1, 64, 0, ''hard_swish'')],
      [(''dsa'', 2, 3, 2, 1, 128, 0, ''hard_swish'')],
      [(''dsa'', 1, 3, 2, 1, 256, 0, ''hard_swish''),
       (''dsa'', 1, 5, 1, 1, 256, 0, ''hard_swish'')],
      [(''dsa'', 4, 5, 1, 1, 256, 0, ''hard_swish'')],
      [(''dsa'', 2, 5, 2, 1, 512, 1 / 4, ''hard_swish'')]]"

text \<open>Decimal formatting of the integers that the f-strings interpolate.\<close>

fun str_nat :: "nat \<Rightarrow> string" where
  "str_nat n =
     (if n < 10 then [char_of (48 + n)] else str_nat (n div 10) @ [char_of (48 + n mod 10)])"

declare str_nat.simps [simp del]

definition str_int :: "int \<Rightarrow> string" where
  "str_int i = (if i < 0 then CHR ''-'' # str_nat (nat (- i)) else str_nat (nat i))"

text \<open>
  A trace entry for one iteration of the innermost loop (\<^verbatim>\<open>for current_layer_idx in
  range(r)\<close>): the three loop indices and the values of \<^verbatim>\<open>block_type, c, k, s, e, se,
  act\<close> and of the layer name in that iteration. The trace is not a variable of the program;
  it records what the loop passes to the block builders.
\<close>

record iteration =
  it_stage :: nat
  it_block :: nat
  it_layer :: nat
  it_type :: string
  it_c :: int
  it_k :: int
  it_s :: int
  it_e :: rat
  it_se :: rat
  it_act :: string
  it_name :: string

text \<open>The variables the loops update: \<^verbatim>\<open>x\<close>, \<^verbatim>\<open>current_stride\<close>, \<^verbatim>\<open>features\<close>.\<close>

record loop_state =
  cur_x :: tensor
  current_stride :: int
  features :: "(string \<times> tensor) list"
  iterations :: "iteration list"

text \<open>
  The variables the loops only read: \<^verbatim>\<open>width\<close>, \<^verbatim>\<open>depth\<close>, the three overrides set
  from \<^verbatim>\<open>minimal\<close>, and \<^verbatim>\<open>len(_config)\<close>.
\<close>

record scope =
  sc_width :: rat
  sc_depth :: rat
  sc_force_activation :: "string option"
  sc_force_kernel_size :: "int option"
  sc_no_se :: bool
  sc_config_len :: nat

text \<open>
  The \<^verbatim>\<open>if\<close>/\<^verbatim>\<open>elif\<close> chain on \<^verbatim>\<open>block_type\<close>, with arguments \<^verbatim>\<open>x, block_type, c, k, s,
  e, se, act, name\<close>; it has no \<^verbatim>\<open>else\<close> branch. First the one of
  \<^verbatim>\<open>kimm/_src/models/mobilenet_v3.py\<close>, then the one of \<^verbatim>\<open>kimm/models/mobilenet_v3.py\<close>.
\<close>

type_synonym dispatch =
  "tensor \<Rightarrow> string \<Rightarrow> int \<Rightarrow> int \<Rightarrow> int \<Rightarrow> rat \<Rightarrow> rat \<Rightarrow> string \<Rightarrow> string \<Rightarrow> error + tensor"

definition dispatch_block :: dispatch where
  "dispatch_block x block_type c k s e se act name =
     (if block_type = ''ds'' \<or> block_type = ''dsa'' then
        (let has_skip = (if block_type = ''dsa'' then False else shape_channels x = c \<and> s = 1)
         in apply_depthwise_separation_block x c k 1 s se (Some act) (Some ''relu'')
              (Some ''hard_sigmoid'') (Some 8)
              (if block_type = ''dsa'' then Some act else None) has_skip name)
      else if block_type = ''ir'' then
        apply_inverted_residual_block x c k 1 1 s e se act None (Some ''relu'')
          (Some ''hard_sigmoid'') (Some 8) name
      else if block_type = ''cn'' then
        Inr (apply_conv2d_block x (Some c) k s (Some act) False name)
      else Inr x)"

definition legacy_dispatch_block :: dispatch where
  "legacy_dispatch_block x block_type c k s e se act name =
     (if block_type = ''ds'' then
        Inr (legacy_depthwise_separation_block x c k 1 s se act name)
      else if block_type = ''ir'' then
        Inr (legacy_inverted_residual_block x c k 1 1 s e se act name)
      else if block_type = ''cn'' then
        Inr (apply_conv2d_block x (Some c) k s (Some act) False name)
      else Inr x)"

text \<open>
  \<^verbatim>\<open>for current_layer_idx in range(r)\<close>. The assignment \<^verbatim>\<open>s = s if current_layer_idx == 0
  else 1\<close> changes \<^verbatim>\<open>s\<close> for the rest of the loop, so \<^verbatim>\<open>s\<close> is threaded through.
\<close>

fun layer_loop ::
  "dispatch \<Rightarrow> nat \<Rightarrow> nat \<Rightarrow> string \<Rightarrow> int \<Rightarrow> int \<Rightarrow> rat \<Rightarrow> rat \<Rightarrow> string \<Rightarrow> nat list \<Rightarrow> int \<Rightarrow>
   loop_state \<Rightarrow> error + loop_state" where
  "layer_loop disp current_stage_idx current_block_idx block_type c k e se act [] s st = Inr st"
| "layer_loop disp current_stage_idx current_block_idx block_type c k e se act
       (current_layer_idx # rest) s st =
     (let s = (if current_layer_idx = 0 then s else 1);
          name = ''blocks_'' @ str_nat current_stage_idx @ ''_''
                   @ str_nat (current_block_idx + current_layer_idx)
      in case disp (cur_x st) block_type c k s e se act name of
           Inl err \<Rightarrow> Inl err
         | Inr x \<Rightarrow>
             layer_loop disp current_stage_idx current_block_idx block_type c k e se act rest s
               (st\<lparr>cur_x := x, current_stride := current_stride st * s,
                   iterations := iterations st @
                     [\<lparr>it_stage = current_stage_idx, it_block = current_block_idx,
                       it_layer = current_layer_idx, it_type = block_type, it_c = c, it_k = k,
                       it_s = s, it_e = e, it_se = se, it_act = act, it_name = name\<rparr>]\<rparr>))"

text \<open>\<^verbatim>\<open>for current_block_idx, sub_cfg in enumerate(cfg)\<close>.\<close>

fun block_loop ::
  "dispatch \<Rightarrow> scope \<Rightarrow> nat \<Rightarrow> (nat \<times> sub_cfg) list \<Rightarrow> loop_state \<Rightarrow> error + loop_state" where
  "block_loop disp sc current_stage_idx [] st = Inr st"
| "block_loop disp sc current_stage_idx
       ((current_block_idx, (block_type, r, k, s, e, c, se, act)) # rest) st =
     (let act = (case sc_force_activation sc of None \<Rightarrow> act | Some forced \<Rightarrow> forced);
          k = (case sc_force_kernel_size sc of None \<Rightarrow> k
               | Some forced \<Rightarrow> if k > forced then forced else k);
          se = (if sc_no_se sc then 0 else se);
          c = make_divisible (of_int c * sc_width sc);
          r = (if int current_block_idx \<noteq> 0
                  \<and> int current_block_idx \<noteq> int (sc_config_len sc) - 1
               then \<lceil>of_int r * sc_depth sc\<rceil> else r)
      in case layer_loop disp current_stage_idx current_block_idx block_type c k e se act
                [0..<nat r] s st of
           Inl err \<Rightarrow> Inl err
         | Inr st' \<Rightarrow> block_loop disp sc current_stage_idx rest st')"

text \<open>\<^verbatim>\<open>for current_stage_idx, cfg in enumerate(_config)\<close>, with the feature tap after each stage.\<close>

fun stage_loop ::
  "dispatch \<Rightarrow> scope \<Rightarrow> (nat \<times> sub_cfg list) list \<Rightarrow> loop_state \<Rightarrow> error + loop_state" where
  "stage_loop disp sc [] st = Inr st"
| "stage_loop disp sc ((current_stage_idx, cfg) # rest) st =
     (case block_loop disp sc current_stage_idx (enumerate 0 cfg) st of
        Inl err \<Rightarrow> Inl err
      | Inr st' \<Rightarrow>
          stage_loop disp sc rest
            (st'\<lparr>features :=
                 AList.update
                   (''BLOCK'' @ str_nat current_stage_idx @ ''_S'' @ str_int (current_stride st'))
                   (cur_x st') (features st')\<rparr>))"

text \<open>\<^verbatim>\<open>build_top\<close>; the legacy constructor applies the same layers inline.\<close>

definition build_top ::
  "tensor \<Rightarrow> int \<Rightarrow> string option \<Rightarrow> rat \<Rightarrow> int \<Rightarrow> string \<Rightarrow> tensor" where
  "build_top inputs classes classifier_activation dropout_rate conv_head_channels
       head_activation =
     (let x = apply_layer (GlobalAveragePooling2D ''avg_pool'' True) (shape_channels inputs) inputs;
          x = apply_layer (Conv2D conv_head_channels 1 1 True ''conv_head'') conv_head_channels x;
          x = apply_layer (Activation head_activation ''act2'') (shape_channels x) x;
          x = apply_layer Flatten (shape_channels x) x;
          x = apply_layer (Dropout dropout_rate ''conv_head_dropout'') (shape_channels x) x;
          x = apply_layer (Dense classes classifier_activation ''classifier'') classes x
      in x)"

text \<open>What the constructor hands to \<^verbatim>\<open>super().__init__\<close>, and the trace of its loop.\<close>

record model =
  outputs :: tensor
  model_features :: "(string \<times> tensor) list"
  model_iterations :: "iteration list"

text \<open>
  The constructor from the stem on, once \<^verbatim>\<open>_config\<close> is chosen. \<open>inputs\<close> is the tensor
  that enters the stem (input determination and preprocessing belong to the base class).
  \<open>conv_head_channels\<close> is \<open>None\<close> when the variable was never assigned; reading it then
  raises \<^verbatim>\<open>UnboundLocalError\<close>.
\<close>

definition init_body ::
  "dispatch \<Rightarrow> rat \<Rightarrow> rat \<Rightarrow> bool \<Rightarrow> sub_cfg list list \<Rightarrow> int option \<Rightarrow> bool \<Rightarrow> bool \<Rightarrow>
   string option \<Rightarrow> int \<Rightarrow> string option \<Rightarrow> rat \<Rightarrow> tensor \<Rightarrow> error + model" where
  "init_body disp width depth fix_stem_and_head_channels config conv_head_channels minimal
       include_top pooling classes classifier_activation dropout_rate inputs =
     (let force_activation = (if minimal then Some ''relu'' else None);
          force_kernel_size = (if minimal then Some 3 else None);
          no_se = minimal;
          x = inputs;
          stem_channel = (if fix_stem_and_head_channels then 16 else make_divisible (16 * width));
          x = apply_conv2d_block x (Some stem_channel) 3 2
                (Some (str_or force_activation ''hard_swish'')) False ''conv_stem'';
          st = \<lparr>cur_x = x, current_stride = 2, features = AList.update ''STEM_S2'' x [],
                iterations = []\<rparr>;
          sc = \<lparr>sc_width = width, sc_depth = depth, sc_force_activation = force_activation,
                sc_force_kernel_size = force_kernel_size, sc_no_se = no_se,
                sc_config_len = length config\<rparr>
      in case stage_loop disp sc (enumerate 0 config) st of
           Inl err \<Rightarrow> Inl err
         | Inr st' \<Rightarrow>
             (let x = cur_x st';
                  finish = (\<lambda>x. Inr \<lparr>outputs = x, model_features = features st',
                                      model_iterations = iterations st'\<rparr>)
              in if include_top then
                   (case conv_head_channels of
                      None \<Rightarrow> Inl UnboundLocalError
                    | Some chc \<Rightarrow>
                        (let chc = (if fix_stem_and_head_channels then chc
                                    else max chc (make_divisible (of_int chc * width)));
                             head_activation = str_or force_activation ''hard_swish''
                         in finish (build_top x classes classifier_activation dropout_rate chc
                                      head_activation)))
                 else if pooling = Some ''avg'' then
                   finish (apply_layer (GlobalAveragePooling2D ''avg_pool'' False)
                             (shape_channels x) x)
                 else if pooling = Some ''max'' then
                   finish (apply_layer (GlobalMaxPooling2D ''max_pool'') (shape_channels x) x)
                 else finish x))"

text \<open>\<^verbatim>\<open>kimm/_src/models/mobilenet_v3.py\<close>: \<^verbatim>\<open>config\<close> is one of three names.\<close>

definition MobileNetV3_init ::
  "rat \<Rightarrow> rat \<Rightarrow> bool \<Rightarrow> string \<Rightarrow> bool \<Rightarrow> bool \<Rightarrow> string option \<Rightarrow> int \<Rightarrow> string option \<Rightarrow> rat \<Rightarrow>
   tensor \<Rightarrow> error + model" where
  "MobileNetV3_init width depth fix_stem_and_head_channels config minimal include_top pooling
       classes classifier_activation dropout_rate inputs =
     (if config = ''small'' then
        init_body dispatch_block width depth fix_stem_and_head_channels DEFAULT_SMALL_CONFIG
          (Some 1024) minimal include_top pooling classes classifier_activation dropout_rate inputs
      else if config = ''large'' then
        init_body dispatch_block width depth fix_stem_and_head_channels DEFAULT_LARGE_CONFIG
          (Some 1280) minimal include_top pooling classes classifier_activation dropout_rate inputs
      else if config = ''lcnet'' then
        init_body dispatch_block width depth fix_stem_and_head_channels DEFAULT_LCNET_CONFIG
          (Some 1280) minimal include_top pooling classes classifier_activation dropout_rate inputs
      else Inl ValueError)"

text \<open>
  \<^verbatim>\<open>kimm/models/mobilenet_v3.py\<close>: \<^verbatim>\<open>config\<close> is a name or a list of stages. A name other
  than \<^verbatim>\<open>"small"\<close> and \<^verbatim>\<open>"large"\<close> is iterated as it is: its characters fail the
  unpacking of \<^verbatim>\<open>sub_cfg\<close> with \<^verbatim>\<open>ValueError\<close>, and the empty name has no stage at all.
\<close>

datatype config_arg = ConfigName string | ConfigList "sub_cfg list list"

definition legacy_MobileNetV3_init ::
  "rat \<Rightarrow> rat \<Rightarrow> bool \<Rightarrow> config_arg \<Rightarrow> bool \<Rightarrow> bool \<Rightarrow> string option \<Rightarrow> int \<Rightarrow> string option \<Rightarrow>
   rat \<Rightarrow> tensor \<Rightarrow> error + model" where
  "legacy_MobileNetV3_init width depth fix_stem_and_head_channels config minimal include_top
       pooling classes classifier_activation dropout_rate inputs =
     (let body = (\<lambda>cfg chc. init_body legacy_dispatch_block width depth
                    fix_stem_and_head_channels cfg chc minimal include_top pooling classes
                    classifier_activation dropout_rate inputs)
      in case config of
           ConfigList cfg \<Rightarrow> body cfg None
         | ConfigName nm \<Rightarrow>
             if nm = ''small'' then body DEFAULT_SMALL_CONFIG (Some 1024)
             else if nm = ''large'' then body DEFAULT_LARGE_CONFIG (Some 1280)
             else if nm = [] then body [] None
             else Inl ValueError)"


section \<open>Predicates and closed forms used in the statements\<close>

subsection \<open>Registry\<close>

text \<open>
  The filters of \<^verbatim>\<open>list_models\<close> as the specification words them: the name filter is the
  fuzzy matcher, the feature-extractor filter is equality, and the weight filter reads
  \<^verbatim>\<open>True\<close> as "any weight tag", \<^verbatim>\<open>False\<close> as "no weight tag" and a string as
  equality up to case.
\<close>

definition name_accepts :: "string option \<Rightarrow> registry_entry \<Rightarrow> bool" where
  "name_accepts name_arg info =
     (case name_arg of None \<Rightarrow> True | Some n \<Rightarrow> match_string n (info_name info))"

definition feature_extractor_accepts :: "bool option \<Rightarrow> registry_entry \<Rightarrow> bool" where
  "feature_extractor_accepts feature_extractor info =
     (case feature_extractor of None \<Rightarrow> True | Some f \<Rightarrow> info_feature_extractor info = f)"

fun weight_filter_accepts :: "weights_filter \<Rightarrow> registry_entry \<Rightarrow> bool" where
  "weight_filter_accepts (FBool True) info = (info_weights info \<noteq> None)"
| "weight_filter_accepts (FBool False) info = (info_weights info = None)"
| "weight_filter_accepts (FStr s) info =
     (case info_weights info of None \<Rightarrow> False | Some t \<Rightarrow> lower t = lower s)"

definition entry_accepted ::
  "string option \<Rightarrow> bool option \<Rightarrow> weights_filter \<Rightarrow> registry_entry \<Rightarrow> bool" where
  "entry_accepted name_arg feature_extractor w info =
     (name_accepts name_arg info \<and> feature_extractor_accepts feature_extractor info
      \<and> weight_filter_accepts w info)"

text \<open>The invariant that registration establishes: a weight tag is \<^verbatim>\<open>None\<close> or lowercase.\<close>

definition weights_normalised :: "registry_entry list \<Rightarrow> bool" where
  "weights_normalised registry =
     list_all (\<lambda>info. case info_weights info of None \<Rightarrow> True | Some t \<Rightarrow> lower t = t) registry"

text \<open>The entry registered last under a name.\<close>

definition last_entry :: "registry_entry list \<Rightarrow> string \<Rightarrow> registry_entry option" where
  "last_entry registry n = find (\<lambda>info. info_name info = n) (rev registry)"

definition empty_state :: py_state where
  "empty_state = \<lparr>MODEL_REGISTRY = [], module_all = (\<lambda>m. None), warnings = []\<rparr>"

definition Foo_cls :: model_cls where
  "Foo_cls = \<lparr>cls_module = ''kimm.models.foo'', cls_name = ''Foo'', is_base_model = True,
               available_feature_keys = [''A'']\<rparr>"

definition Bar_cls :: model_cls where
  "Bar_cls = \<lparr>cls_module = ''kimm.models.foo'', cls_name = ''Bar'', is_base_model = False,
               available_feature_keys = []\<rparr>"

text \<open>\<^verbatim>\<open>Foo\<close> registered once with weights \<^verbatim>\<open>"ImageNet"\<close>; then once more without weights.\<close>

definition foo_state :: py_state where
  "foo_state = snd (add_model_to_registry Foo_cls (WStr ''ImageNet'') empty_state)"

definition foo_twice_state :: py_state where
  "foo_twice_state = snd (add_model_to_registry Foo_cls WNone foo_state)"

subsection \<open>Block builders\<close>

text \<open>The last layer of \<open>y\<close> adds the tensor \<open>inputs\<close>.\<close>

definition adds_input :: "tensor \<Rightarrow> tensor \<Rightarrow> bool" where
  "adds_input inputs y = (graph y \<noteq> [] \<and> last (graph y) = Add (length (graph inputs)))"

definition rgb_input :: tensor where
  "rgb_input = \<lparr>shape_channels = 3, graph = []\<rparr>"

definition wide_input :: tensor where
  "wide_input = \<lparr>shape_channels = 16, graph = []\<rparr>"

subsection \<open>Compiler\<close>

text \<open>
  The repeat count the loop uses for the entry at \<open>block_idx\<close>: the test of the source compares
  the index of the entry within its stage with \<^verbatim>\<open>len(_config) - 1\<close>, the index of the last
  stage.
\<close>

definition effective_repeat :: "scope \<Rightarrow> nat \<Rightarrow> int \<Rightarrow> int" where
  "effective_repeat sc block_idx r =
     (if block_idx \<noteq> 0 \<and> int block_idx \<noteq> int (sc_config_len sc) - 1
      then \<lceil>of_int r * sc_depth sc\<rceil> else r)"

text \<open>
  The repeat count as the specification words it: scaled exactly when the entry is neither the
  first nor the last of its own stage, which has \<open>stage_len\<close> entries.
\<close>

definition spec_repeat :: "rat \<Rightarrow> nat \<Rightarrow> nat \<Rightarrow> int \<Rightarrow> int" where
  "spec_repeat depth stage_len block_idx r =
     (if block_idx \<noteq> 0 \<and> int block_idx \<noteq> int stage_len - 1
      then \<lceil>of_int r * depth\<rceil> else r)"

definition spec_block_counts :: "rat \<Rightarrow> sub_cfg list \<Rightarrow> int list" where
  "spec_block_counts depth cfg =
     map (\<lambda>(block_idx, (block_type, r, rest)). spec_repeat depth (length cfg) block_idx r)
       (enumerate 0 cfg)"

text \<open>The number of iterations the trace holds for each entry of stage \<open>stage_idx\<close>.\<close>

definition block_counts :: "iteration list \<Rightarrow> nat \<Rightarrow> nat \<Rightarrow> int list" where
  "block_counts its stage_idx stage_len =
     map (\<lambda>b. int (length (filter (\<lambda>it. it_stage it = stage_idx \<and> it_block it = b) its)))
       [0..<stage_len]"

text \<open>The values one iteration works with, as functions of the entry and the loop indices.\<close>

definition expected_iteration :: "scope \<Rightarrow> nat \<Rightarrow> nat \<Rightarrow> sub_cfg \<Rightarrow> nat \<Rightarrow> iteration" where
  "expected_iteration sc stage_idx block_idx spec j =
     (case spec of (block_type, r, k, s, e, c, se, act) \<Rightarrow>
        \<lparr>it_stage = stage_idx, it_block = block_idx, it_layer = j, it_type = block_type,
         it_c = make_divisible (of_int c * sc_width sc),
         it_k = (case sc_force_kernel_size sc of None \<Rightarrow> k | Some forced \<Rightarrow> min k forced),
         it_s = (if j = 0 then s else 1),
         it_e = e,
         it_se = (if sc_no_se sc then 0 else se),
         it_act = (case sc_force_activation sc of None \<Rightarrow> act | Some forced \<Rightarrow> forced),
         it_name = ''blocks_'' @ str_nat stage_idx @ ''_'' @ str_nat (block_idx + j)\<rparr>)"

definition block_trace :: "scope \<Rightarrow> nat \<Rightarrow> nat \<times> sub_cfg \<Rightarrow> iteration list" where
  "block_trace sc stage_idx entry =
     (case entry of (block_idx, spec) \<Rightarrow>
        (case spec of (block_type, r, rest) \<Rightarrow>
           map (expected_iteration sc stage_idx block_idx spec)
             [0..<nat (effective_repeat sc block_idx r)]))"

definition stage_trace :: "scope \<Rightarrow> nat \<times> sub_cfg list \<Rightarrow> iteration list" where
  "stage_trace sc stage =
     (case stage of (stage_idx, cfg) \<Rightarrow> concat (map (block_trace sc stage_idx) (enumerate 0 cfg)))"

text \<open>
  The strides the repetitions of one entry are applied with: the entry's stride for
  repetition 0, stride 1 for every later repetition.
\<close>

definition applied_strides :: "scope \<Rightarrow> nat \<times> sub_cfg \<Rightarrow> int list" where
  "applied_strides sc entry =
     (case entry of (block_idx, (block_type, r, k, s, rest)) \<Rightarrow>
        map (\<lambda>j. if j = 0 then s else 1) [0..<nat (effective_repeat sc block_idx r)])"

definition stage_strides :: "scope \<Rightarrow> sub_cfg list \<Rightarrow> int list" where
  "stage_strides sc cfg = concat (map (applied_strides sc) (enumerate 0 cfg))"

text \<open>
  The cumulative stride after each stage, starting from \<open>cs\<close>: a running product over all
  applied strides, carried from stage to stage.
\<close>

fun cumulative_strides :: "scope \<Rightarrow> int \<Rightarrow> sub_cfg list list \<Rightarrow> int list" where
  "cumulative_strides sc cs [] = []"
| "cumulative_strides sc cs (cfg # rest) =
     (cs * prod_list (stage_strides sc cfg))
       # cumulative_strides sc (cs * prod_list (stage_strides sc cfg)) rest"

definition block_key :: "nat \<Rightarrow> int \<Rightarrow> string" where
  "block_key stage_idx cs = ''BLOCK'' @ str_nat stage_idx @ ''_S'' @ str_int cs"

definition tap_keys :: "scope \<Rightarrow> sub_cfg list list \<Rightarrow> string list" where
  "tap_keys sc config =
     ''STEM_S2'' # map (\<lambda>(stage_idx, cs). block_key stage_idx cs)
                      (enumerate 0 (cumulative_strides sc 2 config))"

definition config_trace :: "scope \<Rightarrow> sub_cfg list list \<Rightarrow> iteration list" where
  "config_trace sc config = concat (map (stage_trace sc) (enumerate 0 config))"

text \<open>A dispatch that raises for no argument.\<close>

definition dispatch_total :: "dispatch \<Rightarrow> bool" where
  "dispatch_total disp =
     (\<forall>x block_type c k s e se act name. \<exists>y. disp x block_type c k s e se act name = Inr y)"

text \<open>The scope that the constructor builds from its arguments.\<close>

definition init_scope :: "rat \<Rightarrow> rat \<Rightarrow> bool \<Rightarrow> sub_cfg list list \<Rightarrow> scope" where
  "init_scope width depth minimal config =
     \<lparr>sc_width = width, sc_depth = depth,
      sc_force_activation = (if minimal then Some ''relu'' else None),
      sc_force_kernel_size = (if minimal then Some 3 else None),
      sc_no_se = minimal, sc_config_len = length config\<rparr>"

text \<open>
  The output of the stem and the state in which the constructor enters the loop over the
  stages.
\<close>

definition stem_output :: "rat \<Rightarrow> bool \<Rightarrow> bool \<Rightarrow> tensor \<Rightarrow> tensor" where
  "stem_output width fix_stem_and_head_channels minimal inputs =
     apply_conv2d_block inputs
       (Some (if fix_stem_and_head_channels then 16 else make_divisible (16 * width))) 3 2
       (Some (str_or (if minimal then Some ''relu'' else None) ''hard_swish'')) False
       ''conv_stem''"

definition initial_state :: "tensor \<Rightarrow> loop_state" where
  "initial_state x =
     \<lparr>cur_x = x, current_stride = 2, features = [(''STEM_S2'', x)], iterations = []\<rparr>"

text \<open>Example configurations: one stage with repeats 1, 2, 1; two stages with strides
  \<open>[2, 1]\<close> and \<open>[2, 1, 1]\<close>; one stage with an entry of unknown kind.\<close>

definition repeats_121_config :: "sub_cfg list list" where
  "repeats_121_config =
     [[(''ir'', 1, 3, 1, 1, 16, 0, ''relu''),
       (''ir'', 2, 3, 1, 1, 16, 0, ''relu''),
       (''ir'', 1, 3, 1, 1, 16, 0, ''relu'')]]"

definition strides_config :: "sub_cfg list list" where
  "strides_config =
     [[(''ir'', 1, 3, 2, 4, 24, 0, ''relu''),
       (''ir'', 1, 3, 1, 3, 24, 0, ''relu'')],
      [(''ir'', 1, 5, 2, 3, 40, 1 / 4, ''relu''),
       (''ir'', 1, 5, 1, 3, 40, 1 / 4, ''relu''),
       (''ir'', 1, 5, 1, 3, 40, 1 / 4, ''relu'')]]"

definition unknown_kind_config :: "sub_cfg list list" where
  "unknown_kind_config = [[(''xx'', 1, 3, 2, 1, 16, 0, ''relu'')]]"

definition the_model :: "error + model \<Rightarrow> model" where
  "the_model res = (case res of Inr m \<Rightarrow> m
                    | Inl err \<Rightarrow> \<lparr>outputs = rgb_input, model_features = [], model_iterations = []\<rparr>)"

text \<open>Example runs of the two constructors on the input \<open>rgb_input\<close>.\<close>

definition small_depth2 :: "error + model" where
  "small_depth2 =
     MobileNetV3_init 1 2 False ''small'' False True None 1000 (Some ''softmax'') 0 rgb_input"

definition minimal_small :: "error + model" where
  "minimal_small =
     MobileNetV3_init 1 1 False ''small'' True True None 1000 (Some ''softmax'') 0 rgb_input"

definition repeats_121_depth2 :: "error + model" where
  "repeats_121_depth2 =
     legacy_MobileNetV3_init 1 2 False (ConfigList repeats_121_config) False False None 1000
       (Some ''softmax'') 0 rgb_input"

definition unknown_kind_run :: "error + model" where
  "unknown_kind_run =
     legacy_MobileNetV3_init 1 1 False (ConfigList unknown_kind_config) False False None 1000
       (Some ''softmax'') 0 rgb_input"

definition strides_run :: "error + model" where
  "strides_run =
     init_body dispatch_block 1 1 False strides_config (Some 1280) False False None 1000
       (Some ''softmax'') 0 rgb_input"

section \<open>The fuzzy matcher is ordered subsequence containment\<close>

lemma scan_target_matched: "scan_target q tgt (mi, True) = (mi, True)"
  by (cases tgt) auto

text \<open>Positions up to \<open>matched_idx\<close> are passed over.\<close>

lemma scan_target_skip:
  "int (k + length us) \<le> mi + 1 \<Longrightarrow>
   scan_target q (enumerate k (us @ vs)) (mi, False)
     = scan_target q (enumerate (k + length us) vs) (mi, False)"
  by (induction us arbitrary: k) auto

lemma scan_target_miss:
  "q \<notin> set ys \<Longrightarrow> scan_target q (enumerate k ys) (mi, False) = (mi, False)"
  by (induction ys arbitrary: k) auto

text \<open>Beyond \<open>matched_idx\<close> the scan stops at the first occurrence of the character.\<close>

lemma scan_target_hit:
  "q \<notin> set us \<Longrightarrow> mi < int k \<Longrightarrow>
   scan_target q (enumerate k (us @ q # vs)) (mi, False) = (int (k + length us), True)"
  by (induction us arbitrary: k) (auto simp: scan_target_matched)

lemma subseq_skip_prefix:
  "q \<notin> set us \<Longrightarrow> subseq (q # qs) (us @ ys) = subseq (q # qs) ys"
  by (induction us) auto

lemma match_loop_subseq:
  "- 1 \<le> mi \<Longrightarrow> match_loop qs (enumerate 0 t) mi = subseq qs (drop (nat (mi + 1)) t)"
proof (induction qs arbitrary: mi)
  case Nil
  then show ?case by simp
next
  case (Cons q qs)
  define k where "k = nat (mi + 1)"
  define ys where "ys = drop k t"
  have t_split: "t = take k t @ ys" by (simp add: ys_def)
  show ?case
  proof (cases "k \<le> length t")
    case False
    then have "ys = []" by (simp add: ys_def)
    moreover have "scan_target q (enumerate 0 t) (mi, False) = (mi, False)"
    proof -
      have "int (0 + length t) \<le> mi + 1" using False k_def by linarith
      from scan_target_skip[OF this, of q "[]"] show ?thesis by simp
    qed
    ultimately show ?thesis by (simp add: ys_def k_def)
  next
    case True
    have "int (0 + length (take k t)) \<le> mi + 1" using True Cons.prems k_def by simp
    from scan_target_skip[OF this, of q ys]
    have skip: "scan_target q (enumerate 0 t) (mi, False)
                  = scan_target q (enumerate k ys) (mi, False)"
      using t_split True by simp
    show ?thesis
    proof (cases "q \<in> set ys")
      case False
      then have "\<not> subseq (q # qs) ys"
        using list_emb_set[of "(=)" "q # qs" ys q] by auto
      with False skip show ?thesis
        by (simp add: scan_target_miss ys_def k_def)
    next
      case True
      then obtain us vs where ys: "ys = us @ q # vs" and nin: "q \<notin> set us"
        by (meson split_list_first)
      have lt: "mi < int k" using Cons.prems k_def by linarith
      have hit: "scan_target q (enumerate 0 t) (mi, False) = (int (k + length us), True)"
        using skip scan_target_hit[OF nin lt] ys by simp
      have "drop (nat (int (k + length us) + 1)) t = drop (length us + 1) ys"
        by (simp add: ys_def nat_add_distrib add.commute)
      then have "drop (nat (int (k + length us) + 1)) t = vs" using ys by simp
      moreover have "- 1 \<le> int (k + length us)" by simp
      ultimately have "match_loop qs (enumerate 0 t) (int (k + length us)) = subseq qs vs"
        using Cons.IH by metis
      moreover have "subseq (q # qs) ys = subseq qs vs"
        using subseq_skip_prefix[OF nin] ys by simp
      ultimately show ?thesis using hit by (simp add: ys_def k_def)
    qed
  qed
qed

lemma match_string_subseq:
  "match_string query target = subseq (normalize_query query) (lower target)"
  by (simp add: match_string_def match_loop_subseq)

lemma lower_char_separator:
  "c \<in> {CHR '' '', CHR ''_'', CHR ''.''} \<Longrightarrow> lower_char c = c"
  by (auto simp: lower_char_def)

lemma normalize_query_separators:
  "set query \<subseteq> {CHR '' '', CHR ''_'', CHR ''.''} \<Longrightarrow> normalize_query query = []"
proof -
  assume a: "set query \<subseteq> {CHR '' '', CHR ''_'', CHR ''.''}"
  then have "lower query = query"
    unfolding lower_def by (intro map_idI lower_char_separator) auto
  then show ?thesis
    using a by (auto simp: normalize_query_def replace_char_empty_def filter_empty_conv)
qed

lemma match_string_examples:
  "match_string ''mobilenetv3'' ''MobileNetV3W100Large''"
  "\<not> match_string ''xyz'' ''MobileNetV3''"
  "\<not> match_string ''ba'' ''ab''"
  by code_simp+

lemma normalize_query_examples:
  "normalize_query ''mobile_net.v3'' = ''mobilenetv3''"
  "lower ''MobileNetV3W100Large'' = ''mobilenetv3w100large''"
  by code_simp+

text \<open>
  C3. \<^verbatim>\<open>_match_string(query, target)\<close> is true exactly when the normalised query
  (lowercased, spaces, underscores and dots removed) is a subsequence of the lowercased target,
  that is, when it is the target read at an increasing set of positions. A query made of
  separators only (the empty query among them) matches every target; \<^verbatim>\<open>"mobilenetv3"\<close>
  matches \<^verbatim>\<open>"MobileNetV3W100Large"\<close>; \<^verbatim>\<open>"xyz"\<close> does not match \<^verbatim>\<open>"MobileNetV3"\<close>,
  and \<^verbatim>\<open>"ba"\<close> does not match \<^verbatim>\<open>"ab"\<close>.
\<close>

theorem match_string_ordered_subsequence:
  "match_string query target = subseq (normalize_query query) (lower target)
   \<and> match_string query target = (\<exists>N. normalize_query query = nths (lower target) N)
   \<and> (set query \<subseteq> {CHR '' '', CHR ''_'', CHR ''.''} \<longrightarrow> match_string query target)
   \<and> match_string ''mobilenetv3'' ''MobileNetV3W100Large''
   \<and> \<not> match_string ''xyz'' ''MobileNetV3''
   \<and> \<not> match_string ''ba'' ''ab''"
proof -
  have "set query \<subseteq> {CHR '' '', CHR ''_'', CHR ''.''} \<longrightarrow> match_string query target"
    by (simp add: match_string_subseq normalize_query_separators)
  moreover have "match_string query target = (\<exists>N. normalize_query query = nths (lower target) N)"
    by (simp add: match_string_subseq subseq_conv_nths)
  ultimately show ?thesis
    using match_string_subseq match_string_examples by blast
qed

theorem match_string_ordered_subsequence_witness:
  "set ''_. '' \<subseteq> {CHR '' '', CHR ''_'', CHR ''.''}
   \<and> match_string ''_. '' ''VGG16''
   \<and> match_string ''mobile_net.v3'' ''MobileNetV3W100Large''
   \<and> subseq ''mobilenetv3'' ''mobilenetv3w100large''"
proof -
  have sep: "set ''_. '' \<subseteq> {CHR '' '', CHR ''_'', CHR ''.''}" by simp
  have m: "match_string ''mobile_net.v3'' ''MobileNetV3W100Large''" by code_simp
  have a: "match_string ''_. '' ''VGG16''"
    using sep match_string_ordered_subsequence[of "''_. ''" "''VGG16''"] by blast
  have "subseq (normalize_query ''mobile_net.v3'') (lower ''MobileNetV3W100Large'')"
    using m match_string_ordered_subsequence[of "''mobile_net.v3''" "''MobileNetV3W100Large''"]
    by blast
  then have b: "subseq ''mobilenetv3'' ''mobilenetv3w100large''"
    by (simp only: normalize_query_examples)
  show ?thesis
    using sep a m b by blast
qed

section \<open>Channel rounding: divisibility and the round-down limit\<close>

lemma make_divisible_examples:
  "make_divisible 30 = 32"
  "make_divisible (16 * (1 / 2)) = 8"
  by (simp_all add: make_divisible_def make_divisible_full_def)

lemma make_divisible_bounds:
  assumes v: "0 < v"
  shows "0 < make_divisible v \<and> make_divisible v mod 8 = 0
         \<and> (9 / 10) * v \<le> of_int (make_divisible v)"
proof -
  define n where "n = \<lfloor>v + 4\<rfloor>"
  define q where "q = n div 8 * 8"
  have n_gt: "v + 3 < of_int n" unfolding n_def by linarith
  have q_ge: "n - 7 \<le> q" unfolding q_def by presburger
  have q_mod: "q mod 8 = 0" unfolding q_def by simp
  have md_eq: "make_divisible v
                 = (if of_int (max 8 q) < (9 / 10) * v then max 8 q + 8 else max 8 q)"
    by (simp add: make_divisible_def make_divisible_full_def n_def q_def Let_def)
  have "of_int q > v - 4" using n_gt q_ge by linarith
  then have big: "v < of_int (max 8 q + 8)" by (simp add: max_def)
  have mod8: "max 8 q mod 8 = 0" using q_mod by (simp add: max_def)
  show ?thesis
  proof (cases "of_int (max 8 q) < (9 / 10) * v")
    case True
    then have e: "make_divisible v = max 8 q + 8" using md_eq by simp
    have "(max 8 q + 8) mod 8 = 0" using mod8 by presburger
    moreover have "(9 / 10) * v \<le> of_int (max 8 q + 8)" using big v by linarith
    moreover have "0 < max 8 q + 8" by simp
    ultimately show ?thesis using e by presburger
  next
    case False
    then have e: "make_divisible v = max 8 q" using md_eq by simp
    have "0 < max 8 q" by simp
    moreover have "(9 / 10) * v \<le> of_int (max 8 q)" using False by linarith
    ultimately show ?thesis using e mod8 by presburger
  qed
qed

text \<open>
  C9. For every positive value \<open>v\<close>, \<^verbatim>\<open>make_divisible(v)\<close> with divisor 8 and round limit 0.9
  is a positive multiple of 8 and at least \<open>0.9 * v\<close>; \<^verbatim>\<open>make_divisible(30)\<close> is 32 and
  \<^verbatim>\<open>make_divisible(16 * 0.5)\<close> is 8.
\<close>

theorem make_divisible_positive_multiple:
  "(0 < v \<longrightarrow> 0 < make_divisible v \<and> make_divisible v mod 8 = 0
              \<and> (9 / 10) * v \<le> of_int (make_divisible v))
   \<and> make_divisible 30 = 32 \<and> make_divisible (16 * (1 / 2)) = 8"
  using make_divisible_bounds make_divisible_examples by blast

theorem make_divisible_positive_multiple_witness:
  "(0::rat) < 37 \<and> make_divisible 37 = 40 \<and> (40::int) mod 8 = 0
   \<and> (9 / 10) * (37::rat) \<le> of_int (make_divisible 37)"
proof -
  have e: "make_divisible 37 = 40"
    by (simp add: make_divisible_def make_divisible_full_def)
  show ?thesis
    using e make_divisible_positive_multiple[of 37] by simp
qed

section \<open>Registry: what \<^verbatim>\<open>list_models\<close> returns\<close>

lemma find_append:
  "find P (xs @ ys) = (case find P xs of None \<Rightarrow> find P ys | Some x \<Rightarrow> Some x)"
  by (induction xs) auto

text \<open>
  A name is in the result set exactly when the entry registered last under it is not removed:
  every entry first adds its name and then, possibly, removes it again.
\<close>

lemma list_models_loop_member:
  "n \<in> list_models_loop nm fe w registry acc \<longleftrightarrow>
     (case last_entry registry n of None \<Rightarrow> n \<in> acc
      | Some info \<Rightarrow> \<not> need_remove nm fe w info)"
proof (induction registry arbitrary: acc)
  case Nil
  then show ?case by (simp add: last_entry_def)
next
  case (Cons info rest)
  show ?case
    by (auto simp: Cons.IH last_entry_def find_append Let_def split: option.splits)
qed

lemma list_models_loop_finite:
  "finite acc \<Longrightarrow> finite (list_models_loop nm fe w registry acc)"
  by (induction registry arbitrary: acc) (auto simp: Let_def)

lemma set_list_models:
  "set (list_models nm fe w st) = list_models_loop nm fe w (MODEL_REGISTRY st) {}"
  by (simp add: list_models_def list_models_loop_finite)

lemma list_models_sorted_distinct:
  "sorted (list_models nm fe w st) \<and> distinct (list_models nm fe w st)"
  by (simp add: list_models_def)

lemma list_models_member:
  "n \<in> set (list_models nm fe w st) \<longleftrightarrow>
     (\<exists>info. last_entry (MODEL_REGISTRY st) n = Some info \<and> \<not> need_remove nm fe w info)"
  by (simp add: set_list_models list_models_loop_member split: option.splits)

lemma find_Some_member: "find P xs = Some x \<Longrightarrow> x \<in> set xs \<and> P x"
  by (induction xs) (auto split: if_splits)

lemma last_entry_SomeD:
  "last_entry registry n = Some info \<Longrightarrow> info \<in> set registry \<and> info_name info = n"
  unfolding last_entry_def by (auto dest: find_Some_member)

lemma last_entry_distinct:
  "distinct (map info_name registry) \<Longrightarrow> info \<in> set registry \<Longrightarrow>
   last_entry registry (info_name info) = Some info"
proof (induction registry)
  case Nil
  then show ?case by simp
next
  case (Cons a rest)
  show ?case
  proof (cases "info \<in> set rest")
    case True
    then have "last_entry rest (info_name info) = Some info"
      using Cons by simp
    then show ?thesis by (simp add: last_entry_def find_append)
  next
    case False
    then have a: "a = info" using Cons.prems by simp
    have "find (\<lambda>i. info_name i = info_name info) (rev rest) = None"
      using Cons.prems(1) a by (force simp: find_None_iff image_iff)
    then show ?thesis using a by (simp add: last_entry_def find_append)
  qed
qed

lemma last_entry_present:
  "n \<in> set (map info_name registry) \<Longrightarrow> \<exists>info. last_entry registry n = Some info"
  by (cases "last_entry registry n") (auto simp: last_entry_def find_None_iff)

lemma lower_char_idem: "lower_char (lower_char c) = lower_char c"
proof -
  define n where "n = (of_char c :: nat)"
  show ?thesis
  proof (cases "65 \<le> n \<and> n \<le> 90")
    case True
    then have "(of_char (char_of (n + 32)) :: nat) = n + 32"
      by (simp add: of_char_of)
    with True show ?thesis by (simp add: lower_char_def n_def Let_def)
  next
    case False
    then show ?thesis by (auto simp: lower_char_def n_def Let_def)
  qed
qed

lemma lower_idem: "lower (lower s) = lower s"
  by (simp add: lower_def lower_char_idem)

text \<open>The \<^verbatim>\<open>if\<close>/\<^verbatim>\<open>elif\<close> chain on \<^verbatim>\<open>weights\<close>, on an entry whose tag is normalised.\<close>

lemma need_remove_weights:
  assumes "case info_weights info of None \<Rightarrow> True | Some t \<Rightarrow> lower t = t"
  shows "need_remove nm fe (Some w) info = (\<not> entry_accepted nm fe w info)"
proof (cases w)
  case (FBool b)
  then show ?thesis
    by (cases b) (auto simp: need_remove_def entry_accepted_def name_accepts_def
        feature_extractor_accepts_def Let_def split: option.splits)
next
  case (FStr s)
  then show ?thesis using assms
    by (auto simp: need_remove_def entry_accepted_def name_accepts_def
        feature_extractor_accepts_def Let_def lower_idem split: option.splits)
qed

lemma weights_normalised_entry:
  "weights_normalised registry \<Longrightarrow> info \<in> set registry \<Longrightarrow>
   (case info_weights info of None \<Rightarrow> True | Some t \<Rightarrow> lower t = t)"
  by (simp add: weights_normalised_def list_all_iff)

lemma foo_twice_registry:
  "MODEL_REGISTRY foo_twice_state =
     [\<lparr>info_name = ''Foo'', info_feature_extractor = True, info_feature_keys = [''A''],
       info_weights = Some ''imagenet''\<rparr>,
      \<lparr>info_name = ''Foo'', info_feature_extractor = True, info_feature_keys = [''A''],
       info_weights = None\<rparr>]"
  by code_simp

lemma foo_registry:
  "MODEL_REGISTRY foo_state =
     [\<lparr>info_name = ''Foo'', info_feature_extractor = True, info_feature_keys = [''A''],
       info_weights = Some ''imagenet''\<rparr>]"
  by code_simp

text \<open>
  C4, as amended. On a registry whose weight tags are \<^verbatim>\<open>None\<close> or lowercase,
  \<^verbatim>\<open>list_models\<close> with a weights filter returns a name exactly when the entry registered
  last under that name passes the filters (\<^verbatim>\<open>True\<close>: some weight tag; \<^verbatim>\<open>False\<close>: no weight
  tag; a string: equal to the tag up to case). When the names of the registry are pairwise
  distinct, these are exactly the names of the entries that pass.
\<close>

theorem list_models_weights_filter:
  assumes "weights_normalised (MODEL_REGISTRY st)"
  shows "(n \<in> set (list_models nm fe (Some w) st)) =
           (\<exists>info. last_entry (MODEL_REGISTRY st) n = Some info \<and> entry_accepted nm fe w info)
         \<and> (distinct (map info_name (MODEL_REGISTRY st)) \<longrightarrow>
              set (list_models nm fe (Some w) st) =
                info_name ` {info \<in> set (MODEL_REGISTRY st). entry_accepted nm fe w info})"
proof -
  have norm: "\<And>m info. last_entry (MODEL_REGISTRY st) m = Some info \<Longrightarrow>
                need_remove nm fe (Some w) info = (\<not> entry_accepted nm fe w info)"
    using assms last_entry_SomeD need_remove_weights weights_normalised_entry by blast
  have member: "\<And>m. (m \<in> set (list_models nm fe (Some w) st)) =
           (\<exists>info. last_entry (MODEL_REGISTRY st) m = Some info \<and> entry_accepted nm fe w info)"
    using norm by (auto simp: list_models_member)
  have "set (list_models nm fe (Some w) st) =
          info_name ` {info \<in> set (MODEL_REGISTRY st). entry_accepted nm fe w info}"
    if d: "distinct (map info_name (MODEL_REGISTRY st))"
  proof (intro set_eqI iffI)
    fix m assume "m \<in> set (list_models nm fe (Some w) st)"
    then obtain info where "last_entry (MODEL_REGISTRY st) m = Some info"
      and "entry_accepted nm fe w info"
      using member by blast
    then show "m \<in> info_name ` {info \<in> set (MODEL_REGISTRY st). entry_accepted nm fe w info}"
      using last_entry_SomeD by blast
  next
    fix m assume "m \<in> info_name ` {info \<in> set (MODEL_REGISTRY st). entry_accepted nm fe w info}"
    then obtain info where i: "info \<in> set (MODEL_REGISTRY st)" "entry_accepted nm fe w info"
      and m: "m = info_name info"
      by blast
    then show "m \<in> set (list_models nm fe (Some w) st)"
      using member last_entry_distinct[OF d i(1)] by blast
  qed
  then show ?thesis using member by blast
qed

theorem list_models_weights_filter_witness:
  "weights_normalised (MODEL_REGISTRY foo_state)
   \<and> distinct (map info_name (MODEL_REGISTRY foo_state))
   \<and> list_models None None (Some (FStr ''IMAGENET'')) foo_state = [''Foo'']
   \<and> set (list_models None None (Some (FStr ''IMAGENET'')) foo_state) =
       info_name ` {info \<in> set (MODEL_REGISTRY foo_state).
                     entry_accepted None None (FStr ''IMAGENET'') info}"
proof -
  have n: "weights_normalised (MODEL_REGISTRY foo_state)"
    unfolding foo_registry by code_simp
  have d: "distinct (map info_name (MODEL_REGISTRY foo_state))"
    by (simp add: foo_registry)
  have e: "list_models None None (Some (FStr ''IMAGENET'')) foo_state = [''Foo'']"
    by code_simp
  show ?thesis
    using n d e list_models_weights_filter[OF n, of "''Foo''" None None "FStr ''IMAGENET''"]
    by blast
qed

text \<open>
  The statement of C4 without the amendment fails when a name is registered twice: the first
  entry of the registry below has a weight tag, yet \<^verbatim>\<open>list_models(weights=True)\<close> is empty.
\<close>

theorem list_models_weights_filter_counterexample:
  "weights_normalised (MODEL_REGISTRY foo_twice_state)
   \<and> MODEL_REGISTRY foo_twice_state =
       [\<lparr>info_name = ''Foo'', info_feature_extractor = True, info_feature_keys = [''A''],
         info_weights = Some ''imagenet''\<rparr>,
        \<lparr>info_name = ''Foo'', info_feature_extractor = True, info_feature_keys = [''A''],
         info_weights = None\<rparr>]
   \<and> weight_filter_accepts (FBool True)
       \<lparr>info_name = ''Foo'', info_feature_extractor = True, info_feature_keys = [''A''],
        info_weights = Some ''imagenet''\<rparr>
   \<and> list_models None None (Some (FBool True)) foo_twice_state = []"
proof -
  have n: "weights_normalised (MODEL_REGISTRY foo_twice_state)"
    unfolding foo_twice_registry by code_simp
  have e: "list_models None None (Some (FBool True)) foo_twice_state = []"
    by code_simp
  show ?thesis
    using n e foo_twice_registry by simp
qed

section \<open>Registry: registration\<close>

lemma add_model_to_registry_valid:
  assumes "weights \<noteq> WOther"
  shows "\<exists>st'. add_model_to_registry cls weights st = (None, st')
           \<and> warnings st' = warnings st @ duplicate_warnings (MODEL_REGISTRY st) (cls_name cls)
           \<and> (\<exists>info. info_name info = cls_name cls
                  \<and> MODEL_REGISTRY st' = MODEL_REGISTRY st @ [info])"
  using assms by (cases weights) (simp_all add: add_model_to_registry_def Let_def)

lemma add_model_to_registry_invalid:
  "fst (add_model_to_registry cls WOther st) = Some ValueError
   \<and> MODEL_REGISTRY (snd (add_model_to_registry cls WOther st)) = MODEL_REGISTRY st"
  by (simp add: add_model_to_registry_def Let_def)

lemma add_model_to_registry_all:
  "module_all (snd (add_model_to_registry cls weights st)) (cls_module cls)
     = Some ((case module_all st (cls_module cls) of None \<Rightarrow> [] | Some names \<Rightarrow> names)
              @ [cls_name cls])"
  by (cases weights) (simp_all add: add_model_to_registry_def Let_def split: option.splits)

lemma add_model_to_registry_error_iff:
  "(fst (add_model_to_registry cls weights st) = Some ValueError) = (weights = WOther)"
  by (cases weights) (simp_all add: add_model_to_registry_def Let_def)

lemma duplicate_warnings_nonempty:
  "n \<in> set (map info_name registry) \<Longrightarrow> duplicate_warnings registry n \<noteq> []"
  by (auto simp: duplicate_warnings_def filter_empty_conv)

lemma present_filter_length:
  "n \<in> set (map info_name registry) \<Longrightarrow>
   1 \<le> length (filter (\<lambda>info. info_name info = n) registry)"
proof -
  assume "n \<in> set (map info_name registry)"
  then have "filter (\<lambda>info. info_name info = n) registry \<noteq> []"
    by (auto simp: filter_empty_conv)
  then show ?thesis by (simp add: Suc_le_eq)
qed

lemma distinct_count_list_one:
  "distinct xs \<Longrightarrow> x \<in> set xs \<Longrightarrow> count_list xs x = 1"
  by (induction xs) auto

lemma list_models_unfiltered:
  "set (list_models None None None st) = set (map info_name (MODEL_REGISTRY st))"
proof (intro set_eqI iffI)
  fix n assume "n \<in> set (list_models None None None st)"
  then show "n \<in> set (map info_name (MODEL_REGISTRY st))"
    using last_entry_SomeD by (fastforce simp: list_models_member)
next
  fix n assume "n \<in> set (map info_name (MODEL_REGISTRY st))"
  then obtain info where "last_entry (MODEL_REGISTRY st) n = Some info"
    using last_entry_present by blast
  then show "n \<in> set (list_models None None None st)"
    by (auto simp: list_models_member need_remove_def)
qed

text \<open>
  C7, as amended. When the name of the class is already in the registry and the
  \<^verbatim>\<open>weights\<close> argument is \<^verbatim>\<open>None\<close> or a string, \<^verbatim>\<open>add_model_to_registry\<close> issues at
  least one warning, raises nothing and appends the new entry, so the registry then holds at
  least two entries of that name; every later \<^verbatim>\<open>list_models\<close> call returns a sorted list
  without repetition, and the unfiltered call returns the name exactly once.
\<close>

theorem duplicate_registration_warns_and_appends:
  assumes "cls_name cls \<in> set (map info_name (MODEL_REGISTRY st))"
      and "weights \<noteq> WOther"
  shows "\<exists>st'. add_model_to_registry cls weights st = (None, st')
           \<and> (\<exists>ws. ws \<noteq> [] \<and> warnings st' = warnings st @ ws)
           \<and> (\<exists>info. info_name info = cls_name cls
                  \<and> MODEL_REGISTRY st' = MODEL_REGISTRY st @ [info])
           \<and> 2 \<le> length (filter (\<lambda>info. info_name info = cls_name cls) (MODEL_REGISTRY st'))
           \<and> distinct (list_models nm fe w st') \<and> sorted (list_models nm fe w st')
           \<and> count_list (list_models None None None st') (cls_name cls) = 1"
proof -
  obtain st' info where
    r: "add_model_to_registry cls weights st = (None, st')"
    and ws: "warnings st' = warnings st @ duplicate_warnings (MODEL_REGISTRY st) (cls_name cls)"
    and nm: "info_name info = cls_name cls"
    and reg: "MODEL_REGISTRY st' = MODEL_REGISTRY st @ [info]"
    using add_model_to_registry_valid[OF assms(2)] by blast
  have two: "2 \<le> length (filter (\<lambda>info. info_name info = cls_name cls) (MODEL_REGISTRY st'))"
    using present_filter_length[OF assms(1)] nm reg by simp
  have "cls_name cls \<in> set (list_models None None None st')"
    using nm reg by (simp add: list_models_unfiltered)
  then have once: "count_list (list_models None None None st') (cls_name cls) = 1"
    by (simp add: distinct_count_list_one list_models_sorted_distinct)
  have "duplicate_warnings (MODEL_REGISTRY st) (cls_name cls) \<noteq> []"
    using duplicate_warnings_nonempty[OF assms(1)] .
  then show ?thesis
    using r ws nm reg two once list_models_sorted_distinct by blast
qed

theorem duplicate_registration_warns_and_appends_witness:
  "cls_name Foo_cls \<in> set (map info_name (MODEL_REGISTRY foo_state))
   \<and> WNone \<noteq> WOther
   \<and> fst (add_model_to_registry Foo_cls WNone foo_state) = None
   \<and> list_models None None None foo_twice_state = [''Foo'']
   \<and> (\<exists>st'. add_model_to_registry Foo_cls WNone foo_state = (None, st')
          \<and> 2 \<le> length (filter (\<lambda>info. info_name info = cls_name Foo_cls) (MODEL_REGISTRY st'))
          \<and> count_list (list_models None None None st') (cls_name Foo_cls) = 1)"
proof -
  have p: "cls_name Foo_cls \<in> set (map info_name (MODEL_REGISTRY foo_state))"
    by (simp add: foo_registry Foo_cls_def)
  have v: "WNone \<noteq> WOther" by simp
  have e: "list_models None None None foo_twice_state = [''Foo'']" by code_simp
  have f: "fst (add_model_to_registry Foo_cls WNone foo_state) = None"
    by (simp add: add_model_to_registry_def Let_def)
  show ?thesis
    using p v e f duplicate_registration_warns_and_appends[OF p v, of None None None]
    by blast
qed

text \<open>
  The statement of C7 without the amendment fails for a \<^verbatim>\<open>weights\<close> argument that is
  neither \<^verbatim>\<open>None\<close> nor a string: the name \<^verbatim>\<open>Foo\<close> is present, the call raises
  \<^verbatim>\<open>ValueError\<close> and the registry is left as it was.
\<close>

theorem duplicate_registration_counterexample:
  "cls_name Foo_cls \<in> set (map info_name (MODEL_REGISTRY foo_state))
   \<and> fst (add_model_to_registry Foo_cls WOther foo_state) = Some ValueError
   \<and> MODEL_REGISTRY (snd (add_model_to_registry Foo_cls WOther foo_state))
       = MODEL_REGISTRY foo_state"
  using add_model_to_registry_invalid[of Foo_cls foo_state]
  by (simp add: foo_registry Foo_cls_def)

text \<open>
  C10. Every call of \<^verbatim>\<open>add_model_to_registry\<close> appends the class name to the
  \<^verbatim>\<open>__all__\<close> of the class's module (creating it when absent), whatever the \<^verbatim>\<open>weights\<close>
  argument; the call raises \<^verbatim>\<open>ValueError\<close> exactly when \<^verbatim>\<open>weights\<close> is neither
  \<^verbatim>\<open>None\<close> nor a string, and then the registry is unchanged while \<^verbatim>\<open>__all__\<close> has
  already been extended.
\<close>

theorem registration_extends_all_before_validation:
  "module_all (snd (add_model_to_registry cls weights st)) (cls_module cls)
     = Some ((case module_all st (cls_module cls) of None \<Rightarrow> [] | Some names \<Rightarrow> names)
              @ [cls_name cls])
   \<and> (fst (add_model_to_registry cls weights st) = Some ValueError) = (weights = WOther)
   \<and> fst (add_model_to_registry cls WOther st) = Some ValueError
   \<and> MODEL_REGISTRY (snd (add_model_to_registry cls WOther st)) = MODEL_REGISTRY st
   \<and> module_all (snd (add_model_to_registry cls WOther st)) (cls_module cls)
       = Some ((case module_all st (cls_module cls) of None \<Rightarrow> [] | Some names \<Rightarrow> names)
                @ [cls_name cls])"
  using add_model_to_registry_all add_model_to_registry_error_iff
    add_model_to_registry_invalid by blast

theorem registration_extends_all_before_validation_witness:
  "fst (add_model_to_registry Bar_cls WOther foo_state) = Some ValueError
   \<and> MODEL_REGISTRY (snd (add_model_to_registry Bar_cls WOther foo_state))
       = MODEL_REGISTRY foo_state
   \<and> module_all (snd (add_model_to_registry Bar_cls WOther foo_state)) ''kimm.models.foo''
       = Some [''Foo'', ''Bar'']"
proof -
  have a: "module_all foo_state (cls_module Bar_cls) = Some [''Foo'']"
    by (simp add: foo_state_def empty_state_def add_model_to_registry_def Let_def
        Foo_cls_def Bar_cls_def)
  have m: "cls_module Bar_cls = ''kimm.models.foo''" "cls_name Bar_cls = ''Bar''"
    by (simp_all add: Bar_cls_def)
  show ?thesis
    using registration_extends_all_before_validation[of Bar_cls WOther foo_state] a m
    by simp
qed

section \<open>Block builders: the skip connection\<close>

lemma depthwise_separation_rejects:
  "has_skip \<Longrightarrow> strides \<noteq> 1 \<or> shape_channels inputs \<noteq> filters \<Longrightarrow>
   apply_depthwise_separation_block inputs filters dk pk strides se_ratio act se_act gate_act
     md pw_act has_skip name = Inl ValueError"
  by (simp add: apply_depthwise_separation_block_def)

lemma depthwise_separation_skips:
  "strides = 1 \<Longrightarrow> shape_channels inputs = filters \<Longrightarrow>
   \<exists>y. apply_depthwise_separation_block inputs filters dk pk strides se_ratio act se_act
          gate_act md pw_act True name = Inr y \<and> adds_input inputs y"
  by (simp add: apply_depthwise_separation_block_def adds_input_def add_inputs_def Let_def)

lemma inverted_residual_skip_iff:
  "\<exists>y. apply_inverted_residual_block inputs filters dk ek pk strides e se_ratio act se_ch
          se_act gate_act md name = Inr y
        \<and> adds_input inputs y = (shape_channels inputs = filters \<and> strides = 1)"
  by (auto simp: apply_inverted_residual_block_def adds_input_def add_inputs_def
      apply_conv2d_block_def Let_def)

text \<open>
  C8. A call of the depthwise-separable builder with \<^verbatim>\<open>has_skip=True\<close> fails with
  \<^verbatim>\<open>ValueError\<close> whenever the stride is not 1 or the input channel count differs from
  \<^verbatim>\<open>filters\<close>; when it does not fail, the stride is 1, the channel counts agree and the block
  adds its input to its output. The inverted-residual builder never fails and adds its input
  exactly when the channel counts agree and the stride is 1.
\<close>

theorem skip_connection_contract:
  "(strides \<noteq> 1 \<or> shape_channels inputs \<noteq> filters \<longrightarrow>
      apply_depthwise_separation_block inputs filters dk pk strides se_ratio act se_act
        gate_act md pw_act True name = Inl ValueError)
   \<and> (\<forall>y. apply_depthwise_separation_block inputs filters dk pk strides se_ratio act se_act
              gate_act md pw_act True name = Inr y \<longrightarrow>
            adds_input inputs y = (shape_channels inputs = filters \<and> strides = 1)
            \<and> adds_input inputs y)
   \<and> (strides = 1 \<and> shape_channels inputs = filters \<longrightarrow>
        (\<exists>y. apply_depthwise_separation_block inputs filters dk pk strides se_ratio act se_act
                gate_act md pw_act True name = Inr y \<and> adds_input inputs y))
   \<and> (\<exists>y. apply_inverted_residual_block inputs filters dk ek pk strides e se_ratio activation
              se_ch se_act gate_act md name = Inr y
            \<and> adds_input inputs y = (shape_channels inputs = filters \<and> strides = 1))"
proof -
  have fails: "strides \<noteq> 1 \<or> shape_channels inputs \<noteq> filters \<longrightarrow>
      apply_depthwise_separation_block inputs filters dk pk strides se_ratio act se_act
        gate_act md pw_act True name = Inl ValueError"
    by (simp add: depthwise_separation_rejects)
  have ok: "strides = 1 \<and> shape_channels inputs = filters \<longrightarrow>
        (\<exists>y. apply_depthwise_separation_block inputs filters dk pk strides se_ratio act se_act
                gate_act md pw_act True name = Inr y \<and> adds_input inputs y)"
    by (simp add: depthwise_separation_skips)
  have "adds_input inputs y = (shape_channels inputs = filters \<and> strides = 1)
          \<and> adds_input inputs y"
    if "apply_depthwise_separation_block inputs filters dk pk strides se_ratio act se_act
          gate_act md pw_act True name = Inr y" for y
    using that fails ok by (cases "strides = 1 \<and> shape_channels inputs = filters") auto
  then show ?thesis
    using fails ok inverted_residual_skip_iff by blast
qed

theorem skip_connection_contract_witness:
  "apply_depthwise_separation_block wide_input 16 3 1 2 0 (Some ''relu'') (Some ''relu'')
     (Some ''hard_sigmoid'') (Some 8) None True ''b'' = Inl ValueError
   \<and> apply_depthwise_separation_block wide_input 24 3 1 1 0 (Some ''relu'') (Some ''relu'')
       (Some ''hard_sigmoid'') (Some 8) None True ''b'' = Inl ValueError
   \<and> (\<exists>y. apply_depthwise_separation_block wide_input 16 3 1 1 0 (Some ''relu'')
             (Some ''relu'') (Some ''hard_sigmoid'') (Some 8) None True ''b'' = Inr y
           \<and> adds_input wide_input y)
   \<and> (\<exists>y. apply_inverted_residual_block wide_input 16 3 1 1 2 4 0 ''relu'' None
             (Some ''relu'') (Some ''hard_sigmoid'') (Some 8) ''b'' = Inr y
           \<and> \<not> adds_input wide_input y)"
proof -
  have ch: "shape_channels wide_input = 16" by (simp add: wide_input_def)
  have a: "apply_depthwise_separation_block wide_input 16 3 1 2 0 (Some ''relu'')
             (Some ''relu'') (Some ''hard_sigmoid'') (Some 8) None True ''b'' = Inl ValueError"
    using skip_connection_contract[where strides=2 and inputs=wide_input and filters=16 and dk=3
        and pk=1 and se_ratio=0 and act="Some ''relu''" and se_act="Some ''relu''"
        and gate_act="Some ''hard_sigmoid''" and md="Some 8" and pw_act=None and name="''b''"]
    by simp
  have b: "apply_depthwise_separation_block wide_input 24 3 1 1 0 (Some ''relu'')
             (Some ''relu'') (Some ''hard_sigmoid'') (Some 8) None True ''b'' = Inl ValueError"
    using skip_connection_contract[where strides=1 and inputs=wide_input and filters=24 and dk=3
        and pk=1 and se_ratio=0 and act="Some ''relu''" and se_act="Some ''relu''"
        and gate_act="Some ''hard_sigmoid''" and md="Some 8" and pw_act=None and name="''b''"] ch
    by simp
  have c: "\<exists>y. apply_depthwise_separation_block wide_input 16 3 1 1 0 (Some ''relu'')
             (Some ''relu'') (Some ''hard_sigmoid'') (Some 8) None True ''b'' = Inr y
           \<and> adds_input wide_input y"
    using skip_connection_contract[where strides=1 and inputs=wide_input and filters=16 and dk=3
        and pk=1 and se_ratio=0 and act="Some ''relu''" and se_act="Some ''relu''"
        and gate_act="Some ''hard_sigmoid''" and md="Some 8" and pw_act=None and name="''b''"] ch
    by simp
  have d: "\<exists>y. apply_inverted_residual_block wide_input 16 3 1 1 2 4 0 ''relu'' None
             (Some ''relu'') (Some ''hard_sigmoid'') (Some 8) ''b'' = Inr y
           \<and> \<not> adds_input wide_input y"
    using skip_connection_contract[where strides=2 and inputs=wide_input and filters=16 and dk=3
        and pk=1 and se_ratio=0 and act="Some ''relu''" and se_act="Some ''relu''"
        and gate_act="Some ''hard_sigmoid''" and md="Some 8" and pw_act=None and name="''b''"
        and ek=1 and e=4 and activation="''relu''" and se_ch=None]
    by simp
  show ?thesis using a b c d by blast
qed

section \<open>The loops of the compiler as closed forms\<close>

lemma dispatch_block_total: "dispatch_total dispatch_block"
  by (simp add: dispatch_total_def dispatch_block_def apply_depthwise_separation_block_def
      apply_inverted_residual_block_def Let_def)

lemma legacy_dispatch_block_total: "dispatch_total legacy_dispatch_block"
  by (simp add: dispatch_total_def legacy_dispatch_block_def)

text \<open>Repetitions after the first: the stride is 1, the cumulative stride stays.\<close>

lemma layer_loop_later:
  assumes "dispatch_total disp" and "0 \<notin> set js"
  shows "\<exists>st'. layer_loop disp i b bt c k e se act js s st = Inr st'
           \<and> features st' = features st
           \<and> current_stride st' = current_stride st
           \<and> iterations st' = iterations st @
                map (\<lambda>j. \<lparr>it_stage = i, it_block = b, it_layer = j, it_type = bt, it_c = c,
                           it_k = k, it_s = 1, it_e = e, it_se = se, it_act = act,
                           it_name = ''blocks_'' @ str_nat i @ ''_'' @ str_nat (b + j)\<rparr>) js"
  using assms(2)
proof (induction js arbitrary: s st)
  case Nil
  then show ?case by simp
next
  case (Cons j js)
  then have j: "j \<noteq> 0" and js: "0 \<notin> set js" by auto
  obtain y where y: "disp (cur_x st) bt c k 1 e se act
                       (''blocks_'' @ str_nat i @ ''_'' @ str_nat (b + j)) = Inr y"
    using assms(1) unfolding dispatch_total_def by blast
  define st1 where "st1 = st\<lparr>cur_x := y, current_stride := current_stride st * 1,
      iterations := iterations st @
        [\<lparr>it_stage = i, it_block = b, it_layer = j, it_type = bt, it_c = c, it_k = k,
          it_s = 1, it_e = e, it_se = se, it_act = act,
          it_name = ''blocks_'' @ str_nat i @ ''_'' @ str_nat (b + j)\<rparr>]\<rparr>"
  have step: "layer_loop disp i b bt c k e se act (j # js) s st
                = layer_loop disp i b bt c k e se act js 1 st1"
    using j y by (simp add: st1_def)
  obtain st' where
    r: "layer_loop disp i b bt c k e se act js 1 st1 = Inr st'"
    and f: "features st' = features st1"
    and cs: "current_stride st' = current_stride st1"
    and its: "iterations st' = iterations st1 @
                map (\<lambda>j. \<lparr>it_stage = i, it_block = b, it_layer = j, it_type = bt, it_c = c,
                           it_k = k, it_s = 1, it_e = e, it_se = se, it_act = act,
                           it_name = ''blocks_'' @ str_nat i @ ''_'' @ str_nat (b + j)\<rparr>) js"
    using Cons.IH[OF js, of 1 st1] by blast
  show ?case
    unfolding step using r f cs its by (simp add: st1_def)
qed

text \<open>The whole inner loop: only repetition 0 is applied with the entry's stride.\<close>

lemma layer_loop_upt:
  assumes "dispatch_total disp"
  shows "\<exists>st'. layer_loop disp i b bt c k e se act [0..<n] s st = Inr st'
           \<and> features st' = features st
           \<and> current_stride st' =
               current_stride st * prod_list (map (\<lambda>j. if j = 0 then s else 1) [0..<n])
           \<and> iterations st' = iterations st @
                map (\<lambda>j. \<lparr>it_stage = i, it_block = b, it_layer = j, it_type = bt, it_c = c,
                           it_k = k, it_s = (if j = 0 then s else 1), it_e = e, it_se = se,
                           it_act = act,
                           it_name = ''blocks_'' @ str_nat i @ ''_'' @ str_nat (b + j)\<rparr>)
                  [0..<n]"
proof (cases n)
  case 0
  then show ?thesis by simp
next
  case (Suc m)
  have split: "[0..<n] = 0 # [Suc 0..<n]" using Suc by (simp add: upt_conv_Cons)
  have later: "0 \<notin> set [Suc 0..<n]" by simp
  obtain y where y: "disp (cur_x st) bt c k s e se act
                       (''blocks_'' @ str_nat i @ ''_'' @ str_nat (b + 0)) = Inr y"
    using assms unfolding dispatch_total_def by blast
  define st1 where "st1 = st\<lparr>cur_x := y, current_stride := current_stride st * s,
      iterations := iterations st @
        [\<lparr>it_stage = i, it_block = b, it_layer = 0, it_type = bt, it_c = c, it_k = k,
          it_s = s, it_e = e, it_se = se, it_act = act,
          it_name = ''blocks_'' @ str_nat i @ ''_'' @ str_nat (b + 0)\<rparr>]\<rparr>"
  have step: "layer_loop disp i b bt c k e se act [0..<n] s st
                = layer_loop disp i b bt c k e se act [Suc 0..<n] s st1"
    unfolding split using y by (simp add: st1_def)
  obtain st' where
    r: "layer_loop disp i b bt c k e se act [Suc 0..<n] s st1 = Inr st'"
    and f: "features st' = features st1"
    and cs: "current_stride st' = current_stride st1"
    and its: "iterations st' = iterations st1 @
                map (\<lambda>j. \<lparr>it_stage = i, it_block = b, it_layer = j, it_type = bt, it_c = c,
                           it_k = k, it_s = 1, it_e = e, it_se = se, it_act = act,
                           it_name = ''blocks_'' @ str_nat i @ ''_'' @ str_nat (b + j)\<rparr>)
                  [Suc 0..<n]"
    using layer_loop_later[OF assms later] by blast
  have ones: "map (\<lambda>j. if j = 0 then s else (1::int)) [Suc 0..<n] = map (\<lambda>j. 1) [Suc 0..<n]"
    by simp
  have "prod_list (map (\<lambda>j. (1::int)) xs) = 1" for xs :: "nat list"
    by (induction xs) auto
  then have prod: "prod_list (map (\<lambda>j. if j = 0 then s else 1) [0..<n]) = s"
    unfolding split by (simp add: ones del: upt_Suc)
  have its': "iterations st' = iterations st @
                map (\<lambda>j. \<lparr>it_stage = i, it_block = b, it_layer = j, it_type = bt, it_c = c,
                           it_k = k, it_s = (if j = 0 then s else 1), it_e = e, it_se = se,
                           it_act = act,
                           it_name = ''blocks_'' @ str_nat i @ ''_'' @ str_nat (b + j)\<rparr>)
                  [0..<n]"
    unfolding its split by (simp add: st1_def del: upt_Suc)
  show ?thesis
    using step r f cs its' prod by (simp add: st1_def)
qed

text \<open>The loop over the entries of one stage.\<close>

lemma block_loop_trace:
  assumes "dispatch_total disp"
  shows "\<exists>st'. block_loop disp sc i blocks st = Inr st'
           \<and> features st' = features st
           \<and> current_stride st' =
               current_stride st * prod_list (concat (map (applied_strides sc) blocks))
           \<and> iterations st' = iterations st @ concat (map (block_trace sc i) blocks)"
proof (induction blocks arbitrary: st)
  case Nil
  then show ?case by simp
next
  case (Cons entry blocks)
  obtain b bt r k s e c se act where entry: "entry = (b, (bt, r, k, s, e, c, se, act))"
    by (metis prod_cases3 surj_pair)
  define act' where "act' = (case sc_force_activation sc of None \<Rightarrow> act | Some forced \<Rightarrow> forced)"
  define k' where "k' = (case sc_force_kernel_size sc of None \<Rightarrow> k
                         | Some forced \<Rightarrow> if k > forced then forced else k)"
  define se' where "se' = (if sc_no_se sc then 0 else se)"
  define c' where "c' = make_divisible (of_int c * sc_width sc)"
  define n where "n = nat (effective_repeat sc b r)"
  obtain st1 where
    r1: "layer_loop disp i b bt c' k' e se' act' [0..<n] s st = Inr st1"
    and f1: "features st1 = features st"
    and cs1: "current_stride st1 =
                current_stride st * prod_list (map (\<lambda>j. if j = 0 then s else 1) [0..<n])"
    and its1: "iterations st1 = iterations st @
                map (\<lambda>j. \<lparr>it_stage = i, it_block = b, it_layer = j, it_type = bt, it_c = c',
                           it_k = k', it_s = (if j = 0 then s else 1), it_e = e, it_se = se',
                           it_act = act',
                           it_name = ''blocks_'' @ str_nat i @ ''_'' @ str_nat (b + j)\<rparr>)
                  [0..<n]"
    using layer_loop_upt[OF assms] by blast
  have step: "block_loop disp sc i (entry # blocks) st = block_loop disp sc i blocks st1"
    using r1 by (simp add: entry Let_def act'_def k'_def se'_def c'_def n_def
        effective_repeat_def)
  have k_min: "k' = (case sc_force_kernel_size sc of None \<Rightarrow> k | Some forced \<Rightarrow> min k forced)"
    by (simp add: k'_def min_def split: option.splits)
  have trace: "block_trace sc i entry =
                map (\<lambda>j. \<lparr>it_stage = i, it_block = b, it_layer = j, it_type = bt, it_c = c',
                           it_k = k', it_s = (if j = 0 then s else 1), it_e = e, it_se = se',
                           it_act = act',
                           it_name = ''blocks_'' @ str_nat i @ ''_'' @ str_nat (b + j)\<rparr>)
                  [0..<n]"
    by (simp add: block_trace_def entry expected_iteration_def k_min act'_def se'_def c'_def
        n_def)
  have strides: "applied_strides sc entry = map (\<lambda>j. if j = 0 then s else 1) [0..<n]"
    by (simp add: applied_strides_def entry n_def)
  obtain st' where
    r: "block_loop disp sc i blocks st1 = Inr st'"
    and f: "features st' = features st1"
    and cs: "current_stride st' =
               current_stride st1 * prod_list (concat (map (applied_strides sc) blocks))"
    and its: "iterations st' = iterations st1 @ concat (map (block_trace sc i) blocks)"
    using Cons.IH by blast
  show ?case
    using step r f f1 cs cs1 its its1 trace strides by (simp add: mult.assoc)
qed

text \<open>Decimal strings hold digits only, and determine the number.\<close>

lemma str_nat_no_underscore: "CHR ''_'' \<notin> set (str_nat n)"
proof (induction n rule: str_nat.induct)
  case (1 n)
  have digit: "char_of (48 + d) \<noteq> CHR ''_''" if "d < 10" for d :: nat
  proof
    assume "char_of (48 + d) = CHR ''_''"
    then have "(of_char (char_of (48 + d)) :: nat) = of_char CHR ''_''" by simp
    then show False using that by (simp add: of_char_of)
  qed
  show ?case
  proof (cases "n < 10")
    case True
    then show ?thesis using digit[of n] by (subst str_nat.simps) simp
  next
    case False
    have "n mod 10 < 10" by simp
    then have "char_of (48 + n mod 10) \<noteq> CHR ''_''" using digit by blast
    then show ?thesis using False 1 by (subst str_nat.simps) auto
  qed
qed

lemma str_nat_value:
  "foldl (\<lambda>a ch. 10 * a + (of_char ch - 48)) 0 (str_nat n) = n"
proof (induction n rule: str_nat.induct)
  case (1 n)
  have digit: "(of_char (char_of (48 + d)) :: nat) - 48 = d" if "d < 10" for d :: nat
    using that by (simp add: of_char_of)
  show ?case
  proof (cases "n < 10")
    case True
    then show ?thesis using digit[of n] by (subst str_nat.simps) simp
  next
    case False
    have "n mod 10 < 10" by simp
    then have "(of_char (char_of (48 + n mod 10)) :: nat) - 48 = n mod 10"
      using digit by blast
    then show ?thesis using False 1 by (subst str_nat.simps) simp
  qed
qed

lemma str_nat_inj: "str_nat m = str_nat n \<Longrightarrow> m = n"
  using str_nat_value by metis

lemma takeWhile_until:
  "c \<notin> set xs \<Longrightarrow> takeWhile (\<lambda>ch. ch \<noteq> c) (xs @ c # rest) = xs"
  by (induction xs) auto

lemma block_key_stage: "block_key i a = block_key j b \<Longrightarrow> i = j"
proof -
  assume "block_key i a = block_key j b"
  then have eq: "str_nat i @ CHR ''_'' # (CHR ''S'' # str_int a)
                  = str_nat j @ CHR ''_'' # (CHR ''S'' # str_int b)"
    by (simp add: block_key_def)
  have "takeWhile (\<lambda>ch. ch \<noteq> CHR ''_'') (str_nat n @ CHR ''_'' # rest) = str_nat n"
    for n rest
    using str_nat_no_underscore[of n] by (rule takeWhile_until)
  then have "str_nat i = str_nat j" using eq by metis
  then show ?thesis by (rule str_nat_inj)
qed

lemma stem_key_not_block: "''STEM_S2'' \<noteq> block_key j cs"
  by (simp add: block_key_def)

lemma alist_update_fresh:
  "key \<notin> fst ` set al \<Longrightarrow> AList.update key v al = al @ [(key, v)]"
  by (induction al) auto

text \<open>The loop over the stages: one new key per stage, in order.\<close>

lemma stage_loop_trace:
  assumes "dispatch_total disp"
      and "\<forall>key \<in> fst ` set (features st). \<forall>j \<ge> i0. \<forall>cs. key \<noteq> block_key j cs"
  shows "\<exists>st'. stage_loop disp sc (enumerate i0 cfgs) st = Inr st'
           \<and> iterations st' = iterations st @ concat (map (stage_trace sc) (enumerate i0 cfgs))
           \<and> map fst (features st') = map fst (features st) @
                map (\<lambda>(i, cs). block_key i cs)
                  (enumerate i0 (cumulative_strides sc (current_stride st) cfgs))"
  using assms(2)
proof (induction cfgs arbitrary: i0 st)
  case Nil
  then show ?case by simp
next
  case (Cons cfg cfgs)
  obtain st1 where
    r1: "block_loop disp sc i0 (enumerate 0 cfg) st = Inr st1"
    and f1: "features st1 = features st"
    and cs1: "current_stride st1 = current_stride st * prod_list (stage_strides sc cfg)"
    and its1: "iterations st1 = iterations st @ stage_trace sc (i0, cfg)"
    using block_loop_trace[OF assms(1), of sc i0 "enumerate 0 cfg" st]
    by (auto simp: stage_strides_def stage_trace_def)
  define key where "key = block_key i0 (current_stride st1)"
  define st2 where "st2 = st1\<lparr>features := AList.update key (cur_x st1) (features st1)\<rparr>"
  have fresh: "key \<notin> fst ` set (features st)"
    using Cons.prems unfolding key_def by blast
  have f2: "features st2 = features st @ [(key, cur_x st1)]"
    using fresh by (simp add: st2_def f1 alist_update_fresh)
  have step: "stage_loop disp sc (enumerate i0 (cfg # cfgs)) st
                = stage_loop disp sc (enumerate (Suc i0) cfgs) st2"
    using r1 by (simp add: st2_def key_def block_key_def)
  have inv: "\<forall>k \<in> fst ` set (features st2). \<forall>j \<ge> Suc i0. \<forall>cs. k \<noteq> block_key j cs"
  proof (intro ballI allI impI)
    fix k j cs
    assume k: "k \<in> fst ` set (features st2)" and j: "Suc i0 \<le> j"
    show "k \<noteq> block_key j cs"
    proof (cases "k = key")
      case True
      then show ?thesis using block_key_stage[of i0 "current_stride st1" j cs] j
        by (auto simp: key_def)
    next
      case False
      then have old: "k \<in> fst ` set (features st)" using k f2 by auto
      have "i0 \<le> j" using j by simp
      with Cons.prems old show ?thesis by blast
    qed
  qed
  obtain st' where
    r: "stage_loop disp sc (enumerate (Suc i0) cfgs) st2 = Inr st'"
    and its: "iterations st' = iterations st2 @
                concat (map (stage_trace sc) (enumerate (Suc i0) cfgs))"
    and keys: "map fst (features st') = map fst (features st2) @
                map (\<lambda>(i, cs). block_key i cs)
                  (enumerate (Suc i0) (cumulative_strides sc (current_stride st2) cfgs))"
    using Cons.IH[OF inv] by blast
  have its2: "iterations st2 = iterations st1" and cs2: "current_stride st2 = current_stride st1"
    by (simp_all add: st2_def)
  show ?case
    unfolding step using r its keys its1 its2 cs2 cs1 f2 by (simp add: key_def)
qed

lemma trace_strides_block: "map it_s (block_trace sc i entry) = applied_strides sc entry"
proof -
  obtain b bt r k s e c se act where entry: "entry = (b, (bt, r, k, s, e, c, se, act))"
    by (metis prod_cases3 surj_pair)
  show ?thesis
    by (simp add: entry block_trace_def applied_strides_def expected_iteration_def comp_def)
qed

lemma trace_strides_stage: "map it_s (stage_trace sc (i, cfg)) = stage_strides sc cfg"
  by (simp add: stage_trace_def stage_strides_def map_concat comp_def trace_strides_block)

lemma trace_strides_stages:
  "map it_s (concat (map (stage_trace sc) (enumerate i0 config)))
     = concat (map (stage_strides sc) config)"
  by (induction config arbitrary: i0) (simp_all add: trace_strides_stage)

lemma trace_strides_config:
  "map it_s (config_trace sc config) = concat (map (stage_strides sc) config)"
  by (simp add: config_trace_def trace_strides_stages)

text \<open>
  The constructor from the stem on: it returns a model unless the head reads an unassigned
  \<^verbatim>\<open>conv_head_channels\<close>; the trace and the keys of the feature taps are the closed forms.
\<close>

lemma init_body_result:
  assumes "dispatch_total disp" and "include_top \<longrightarrow> conv_head_channels \<noteq> None"
  shows "\<exists>m. init_body disp width depth fixed config conv_head_channels minimal include_top
                pooling classes ca dr inputs = Inr m
           \<and> model_iterations m = config_trace (init_scope width depth minimal config) config
           \<and> map fst (model_features m) = tap_keys (init_scope width depth minimal config) config"
proof -
  define sc where "sc = init_scope width depth minimal config"
  define x where "x = apply_conv2d_block inputs
      (Some (if fixed then 16 else make_divisible (16 * width))) 3 2
      (Some (str_or (if minimal then Some ''relu'' else None) ''hard_swish'')) False ''conv_stem''"
  define st where "st = \<lparr>cur_x = x, current_stride = 2, features = AList.update ''STEM_S2'' x [],
      iterations = []\<rparr>"
  have inv: "\<forall>key \<in> fst ` set (features st). \<forall>j \<ge> 0. \<forall>cs. key \<noteq> block_key j cs"
    using stem_key_not_block by (simp add: st_def)
  obtain st' where
    r: "stage_loop disp sc (enumerate 0 config) st = Inr st'"
    and its: "iterations st' = iterations st @ concat (map (stage_trace sc) (enumerate 0 config))"
    and keys: "map fst (features st') = map fst (features st) @
                map (\<lambda>(i, cs). block_key i cs)
                  (enumerate 0 (cumulative_strides sc (current_stride st) config))"
    using stage_loop_trace[OF assms(1) inv] by blast
  have its': "iterations st' = config_trace sc config"
    using its by (simp add: st_def config_trace_def)
  have keys': "map fst (features st') = tap_keys sc config"
    using keys by (simp add: st_def tap_keys_def)
  have unfold: "init_body disp width depth fixed config conv_head_channels minimal include_top
                  pooling classes ca dr inputs =
        (let x = cur_x st';
             finish = (\<lambda>x. Inr \<lparr>outputs = x, model_features = features st',
                                 model_iterations = iterations st'\<rparr>)
         in if include_top then
              (case conv_head_channels of
                 None \<Rightarrow> Inl UnboundLocalError
               | Some chc \<Rightarrow>
                   (let chc = (if fixed then chc else max chc (make_divisible (of_int chc * width)));
                        head_activation = str_or (if minimal then Some ''relu'' else None)
                                            ''hard_swish''
                    in finish (build_top x classes ca dr chc head_activation)))
            else if pooling = Some ''avg'' then
              finish (apply_layer (GlobalAveragePooling2D ''avg_pool'' False) (shape_channels x) x)
            else if pooling = Some ''max'' then
              finish (apply_layer (GlobalMaxPooling2D ''max_pool'') (shape_channels x) x)
            else finish x)"
    using r by (simp add: init_body_def Let_def sc_def init_scope_def st_def x_def)
  show ?thesis
    unfolding unfold sc_def[symmetric] using assms(2) its' keys'
    by (auto simp: Let_def split: option.splits)
qed

text \<open>The stages can be run in two parts.\<close>

lemma stage_loop_append:
  "stage_loop disp sc (xs @ ys) st =
     (case stage_loop disp sc xs st of Inl err \<Rightarrow> Inl err
      | Inr st1 \<Rightarrow> stage_loop disp sc ys st1)"
proof (induction xs arbitrary: st)
  case Nil
  then show ?case by simp
next
  case (Cons a xs)
  obtain i cfg where a: "a = (i, cfg)" by (cases a)
  show ?case
    by (simp add: a Cons.IH split: sum.splits)
qed

text \<open>
  The feature dict only grows: each stage appends one tap, which holds the tensor and is keyed
  with the cumulative stride at the end of that stage.
\<close>

lemma stage_loop_taps:
  assumes "dispatch_total disp"
      and "\<forall>key \<in> fst ` set (features st). \<forall>j \<ge> i0. \<forall>cs. key \<noteq> block_key j cs"
  shows "\<exists>st' new. stage_loop disp sc (enumerate i0 cfgs) st = Inr st'
           \<and> features st' = features st @ new \<and> length new = length cfgs
           \<and> (cfgs = [] \<longrightarrow> st' = st)
           \<and> (cfgs \<noteq> [] \<longrightarrow>
                 last new = (block_key (i0 + length cfgs - 1) (current_stride st'), cur_x st'))
           \<and> (\<forall>key \<in> fst ` set (features st').
                 \<forall>j \<ge> i0 + length cfgs. \<forall>cs. key \<noteq> block_key j cs)"
  using assms(2)
proof (induction cfgs arbitrary: i0 st)
  case Nil
  then show ?case by simp
next
  case (Cons cfg cfgs)
  obtain st1 where
    r1: "block_loop disp sc i0 (enumerate 0 cfg) st = Inr st1"
    and f1: "features st1 = features st"
    using block_loop_trace[OF assms(1), of sc i0 "enumerate 0 cfg" st] by blast
  define key where "key = block_key i0 (current_stride st1)"
  define st2 where "st2 = st1\<lparr>features := AList.update key (cur_x st1) (features st1)\<rparr>"
  have fresh: "key \<notin> fst ` set (features st)"
    using Cons.prems unfolding key_def by blast
  have f2: "features st2 = features st @ [(key, cur_x st1)]"
    using fresh by (simp add: st2_def f1 alist_update_fresh)
  have x2: "cur_x st2 = cur_x st1" and cs2: "current_stride st2 = current_stride st1"
    by (simp_all add: st2_def)
  have step: "stage_loop disp sc (enumerate i0 (cfg # cfgs)) st
                = stage_loop disp sc (enumerate (Suc i0) cfgs) st2"
    using r1 by (simp add: st2_def key_def block_key_def)
  have inv: "\<forall>k \<in> fst ` set (features st2). \<forall>j \<ge> Suc i0. \<forall>cs. k \<noteq> block_key j cs"
  proof (intro ballI allI impI)
    fix k j cs
    assume k: "k \<in> fst ` set (features st2)" and j: "Suc i0 \<le> j"
    show "k \<noteq> block_key j cs"
    proof (cases "k = key")
      case True
      then show ?thesis using block_key_stage[of i0 "current_stride st1" j cs] j
        by (auto simp: key_def)
    next
      case False
      then have old: "k \<in> fst ` set (features st)" using k f2 by auto
      have "i0 \<le> j" using j by simp
      with Cons.prems old show ?thesis by blast
    qed
  qed
  obtain st' new where
    r: "stage_loop disp sc (enumerate (Suc i0) cfgs) st2 = Inr st'"
    and f: "features st' = features st2 @ new"
    and len: "length new = length cfgs"
    and empty: "cfgs = [] \<longrightarrow> st' = st2"
    and lst: "cfgs \<noteq> [] \<longrightarrow>
                last new = (block_key (Suc i0 + length cfgs - 1) (current_stride st'), cur_x st')"
    and post: "\<forall>key \<in> fst ` set (features st').
                 \<forall>j \<ge> Suc i0 + length cfgs. \<forall>cs. key \<noteq> block_key j cs"
    using Cons.IH[OF inv] by blast
  define new' where "new' = (key, cur_x st1) # new"
  have f': "features st' = features st @ new'"
    using f f2 by (simp add: new'_def)
  have len': "length new' = length (cfg # cfgs)"
    using len by (simp add: new'_def)
  have lst': "last new' = (block_key (i0 + length (cfg # cfgs) - 1) (current_stride st'), cur_x st')"
  proof (cases "cfgs = []")
    case True
    then have "st' = st2" and "new = []" using empty len by auto
    then show ?thesis using True x2 cs2 by (simp add: new'_def key_def)
  next
    case False
    then have "new \<noteq> []" using len by auto
    then show ?thesis using False lst by (simp add: new'_def)
  qed
  have post': "\<forall>key \<in> fst ` set (features st').
                 \<forall>j \<ge> i0 + length (cfg # cfgs). \<forall>cs. key \<noteq> block_key j cs"
    using post by simp
  show ?case
    unfolding step using r f' len' lst' post' by blast
qed

text \<open>
  Tap \<open>i + 1\<close> of the finished loop is what the loop over the first \<open>i + 1\<close> stages leaves as
  its last tap: the key carries the cumulative stride, the value is the tensor at that point.
\<close>

lemma stage_loop_tap_at:
  assumes total: "dispatch_total disp" and i: "i < length config"
  shows "\<exists>st_i st'. stage_loop disp sc (enumerate 0 (take (Suc i) config)) (initial_state x)
                       = Inr st_i
           \<and> stage_loop disp sc (enumerate 0 config) (initial_state x) = Inr st'
           \<and> hd (features st') = (''STEM_S2'', x)
           \<and> features st' ! Suc i = (block_key i (current_stride st_i), cur_x st_i)"
proof -
  define pre where "pre = take (Suc i) config"
  define suf where "suf = drop (Suc i) config"
  have len_pre: "length pre = Suc i" using i by (simp add: pre_def)
  have pre_ne: "pre \<noteq> []" using len_pre by auto
  have split: "enumerate 0 config = enumerate 0 pre @ enumerate (Suc i) suf"
    using enumerate_append_eq[of 0 pre suf] len_pre by (simp add: pre_def suf_def)
  have inv0: "\<forall>key \<in> fst ` set (features (initial_state x)).
                \<forall>j \<ge> 0. \<forall>cs. key \<noteq> block_key j cs"
    using stem_key_not_block by (simp add: initial_state_def)
  obtain st_i new where
    r1: "stage_loop disp sc (enumerate 0 pre) (initial_state x) = Inr st_i"
    and f1: "features st_i = features (initial_state x) @ new"
    and len1: "length new = length pre"
    and lst1: "pre \<noteq> [] \<longrightarrow>
                 last new = (block_key (0 + length pre - 1) (current_stride st_i), cur_x st_i)"
    and post1: "\<forall>key \<in> fst ` set (features st_i).
                  \<forall>j \<ge> 0 + length pre. \<forall>cs. key \<noteq> block_key j cs"
    using stage_loop_taps[OF total inv0, of sc pre] by blast
  have inv1: "\<forall>key \<in> fst ` set (features st_i). \<forall>j \<ge> Suc i. \<forall>cs. key \<noteq> block_key j cs"
    using post1 len_pre by simp
  obtain st' new2 where
    r2: "stage_loop disp sc (enumerate (Suc i) suf) st_i = Inr st'"
    and f2: "features st' = features st_i @ new2"
    using stage_loop_taps[OF total inv1, of sc suf] by blast
  have whole: "stage_loop disp sc (enumerate 0 config) (initial_state x) = Inr st'"
    unfolding split stage_loop_append using r1 r2 by simp
  have feats: "features st' = (''STEM_S2'', x) # new @ new2"
    using f1 f2 by (simp add: initial_state_def)
  have new_ne: "new \<noteq> []" using len1 pre_ne by auto
  have "features st' ! Suc i = new ! i"
    using feats len1 len_pre by (simp add: nth_append)
  also have "\<dots> = last new"
    using new_ne len1 len_pre by (simp add: last_conv_nth)
  also have "\<dots> = (block_key i (current_stride st_i), cur_x st_i)"
    using lst1 pre_ne len_pre by simp
  finally have tap: "features st' ! Suc i = (block_key i (current_stride st_i), cur_x st_i)" .
  show ?thesis
    using r1 whole tap feats unfolding pre_def by (intro exI[of _ st_i] exI[of _ st']) simp
qed

lemma init_body_taps:
  assumes "dispatch_total disp" and "include_top \<longrightarrow> conv_head_channels \<noteq> None"
  shows "\<exists>m st'. init_body disp width depth fixed config conv_head_channels minimal include_top
                   pooling classes ca dr inputs = Inr m
           \<and> stage_loop disp (init_scope width depth minimal config) (enumerate 0 config)
               (initial_state (stem_output width fixed minimal inputs)) = Inr st'
           \<and> model_features m = features st' \<and> model_iterations m = iterations st'"
proof -
  define sc where "sc = init_scope width depth minimal config"
  define st where "st = initial_state (stem_output width fixed minimal inputs)"
  have inv: "\<forall>key \<in> fst ` set (features st). \<forall>j \<ge> 0. \<forall>cs. key \<noteq> block_key j cs"
    using stem_key_not_block by (simp add: st_def initial_state_def)
  obtain st' where r: "stage_loop disp sc (enumerate 0 config) st = Inr st'"
    using stage_loop_trace[OF assms(1) inv] by blast
  have unfold: "init_body disp width depth fixed config conv_head_channels minimal include_top
                  pooling classes ca dr inputs =
        (let x = cur_x st';
             finish = (\<lambda>x. Inr \<lparr>outputs = x, model_features = features st',
                                 model_iterations = iterations st'\<rparr>)
         in if include_top then
              (case conv_head_channels of
                 None \<Rightarrow> Inl UnboundLocalError
               | Some chc \<Rightarrow>
                   (let chc = (if fixed then chc else max chc (make_divisible (of_int chc * width)));
                        head_activation = str_or (if minimal then Some ''relu'' else None)
                                            ''hard_swish''
                    in finish (build_top x classes ca dr chc head_activation)))
            else if pooling = Some ''avg'' then
              finish (apply_layer (GlobalAveragePooling2D ''avg_pool'' False) (shape_channels x) x)
            else if pooling = Some ''max'' then
              finish (apply_layer (GlobalMaxPooling2D ''max_pool'') (shape_channels x) x)
            else finish x)"
    using r by (simp add: init_body_def Let_def sc_def init_scope_def st_def initial_state_def
        stem_output_def)
  show ?thesis
    unfolding unfold sc_def[symmetric] st_def[symmetric] using assms(2) r
    by (auto simp: Let_def split: option.splits)
qed

text \<open>
  The taps of the finished model: the first is the output of the stem; tap \<open>i + 1\<close> is keyed
  with the cumulative stride after stage \<open>i\<close> and holds the tensor after stage \<open>i\<close>.
\<close>

lemma init_body_tap_values:
  assumes total: "dispatch_total disp"
      and r: "init_body disp width depth fixed config conv_head_channels minimal include_top
                pooling classes ca dr inputs = Inr m"
  shows "hd (model_features m) = (''STEM_S2'', stem_output width fixed minimal inputs)
         \<and> (\<forall>i < length config.
               \<exists>st. stage_loop disp (init_scope width depth minimal config)
                      (enumerate 0 (take (Suc i) config))
                      (initial_state (stem_output width fixed minimal inputs)) = Inr st
                  \<and> model_features m ! Suc i = (block_key i (current_stride st), cur_x st))"
proof -
  have top: "include_top \<longrightarrow> conv_head_channels \<noteq> None"
  proof
    assume "include_top"
    show "conv_head_channels \<noteq> None"
    proof
      assume "conv_head_channels = None"
      then have "init_body disp width depth fixed config conv_head_channels minimal include_top
                   pooling classes ca dr inputs = Inl UnboundLocalError
                 \<or> (\<exists>err. stage_loop disp
                       \<lparr>sc_width = width, sc_depth = depth,
                        sc_force_activation = (if minimal then Some ''relu'' else None),
                        sc_force_kernel_size = (if minimal then Some 3 else None),
                        sc_no_se = minimal, sc_config_len = length config\<rparr>
                       (enumerate 0 config)
                       \<lparr>cur_x = stem_output width fixed minimal inputs, current_stride = 2,
                        features = AList.update ''STEM_S2''
                                     (stem_output width fixed minimal inputs) [],
                        iterations = []\<rparr> = Inl err
                     \<and> init_body disp width depth fixed config conv_head_channels minimal
                         include_top pooling classes ca dr inputs = Inl err)"
        using \<open>include_top\<close>
        by (auto simp: init_body_def Let_def stem_output_def split: sum.splits)
      then show False using r by auto
    qed
  qed
  obtain m' st' where
    r': "init_body disp width depth fixed config conv_head_channels minimal include_top
           pooling classes ca dr inputs = Inr m'"
    and loop: "stage_loop disp (init_scope width depth minimal config) (enumerate 0 config)
                 (initial_state (stem_output width fixed minimal inputs)) = Inr st'"
    and feats: "model_features m' = features st'"
    using init_body_taps[OF total top] by blast
  have m: "m' = m" using r r' by simp
  have stem: "hd (features st') = (''STEM_S2'', stem_output width fixed minimal inputs)"
  proof -
    have inv0: "\<forall>key \<in> fst ` set (features (initial_state (stem_output width fixed minimal inputs))).
                  \<forall>j \<ge> 0. \<forall>cs. key \<noteq> block_key j cs"
      using stem_key_not_block by (simp add: initial_state_def)
    obtain st'' new where
      "stage_loop disp (init_scope width depth minimal config) (enumerate 0 config)
         (initial_state (stem_output width fixed minimal inputs)) = Inr st''"
      and "features st'' =
             features (initial_state (stem_output width fixed minimal inputs)) @ new"
      using stage_loop_taps[OF total inv0] by blast
    then show ?thesis using loop by (simp add: initial_state_def)
  qed
  have "\<exists>st. stage_loop disp (init_scope width depth minimal config)
                (enumerate 0 (take (Suc i) config))
                (initial_state (stem_output width fixed minimal inputs)) = Inr st
            \<and> features st' ! Suc i = (block_key i (current_stride st), cur_x st)"
    if "i < length config" for i
    using stage_loop_tap_at[OF total that,
        of "init_scope width depth minimal config" "stem_output width fixed minimal inputs"]
      loop
    by auto
  then show ?thesis using stem feats m by simp
qed

section \<open>Properties of the compiler\<close>

lemma MobileNetV3_init_small:
  "MobileNetV3_init width depth fixed ''small'' minimal include_top pooling classes ca dr inputs
     = init_body dispatch_block width depth fixed DEFAULT_SMALL_CONFIG (Some 1024) minimal
         include_top pooling classes ca dr inputs"
  by (simp add: MobileNetV3_init_def)

lemma strides_example:
  "map (stage_strides (init_scope 1 1 False strides_config)) strides_config = [[2, 1], [2, 1, 1]]"
  "tap_keys (init_scope 1 1 False strides_config) strides_config
     = [''STEM_S2'', ''BLOCK0_S4'', ''BLOCK1_S8'']"
  by code_simp+

lemma strides_run_result:
  "strides_run = Inr (the_model strides_run)"
  "map fst (model_features (the_model strides_run)) = [''STEM_S2'', ''BLOCK0_S4'', ''BLOCK1_S8'']"
  by code_simp+

text \<open>
  C5. For every stage configuration the constructor of \<^verbatim>\<open>kimm/_src\<close> (where
  \<^verbatim>\<open>conv_head_channels\<close> is always assigned) returns a model whose feature taps are keyed,
  in this order, \<^verbatim>\<open>STEM_S2\<close> and then \<^verbatim>\<open>BLOCK{i}_S{cs}\<close> for each stage \<open>i\<close>, where
  \<open>cs\<close> starts at 2 and is multiplied by every applied stride up to the end of stage \<open>i\<close>;
  the applied strides are the entry's stride for repetition 0 and 1 for every later
  repetition. The first tap holds the output of the stem, the tap of stage \<open>i\<close> the tensor
  that the loop over the stages up to \<open>i\<close> leaves. For stages with applied strides \<open>[2, 1]\<close>
  and \<open>[2, 1, 1]\<close> the keys are \<^verbatim>\<open>STEM_S2\<close>, \<^verbatim>\<open>BLOCK0_S4\<close>, \<^verbatim>\<open>BLOCK1_S8\<close>.
\<close>

theorem feature_taps_cumulative_stride:
  "(\<exists>m. init_body dispatch_block width depth fixed config (Some conv_head_channels) minimal
              include_top pooling classes ca dr inputs = Inr m
           \<and> map fst (model_features m) =
               ''STEM_S2'' #
               map (\<lambda>(stage_idx, cs). ''BLOCK'' @ str_nat stage_idx @ ''_S'' @ str_int cs)
                 (enumerate 0
                    (cumulative_strides (init_scope width depth minimal config) 2 config))
           \<and> map it_s (model_iterations m) =
               concat (map (stage_strides (init_scope width depth minimal config)) config)
           \<and> hd (model_features m) = (''STEM_S2'', stem_output width fixed minimal inputs)
           \<and> (\<forall>i < length config.
                 \<exists>st. stage_loop dispatch_block (init_scope width depth minimal config)
                        (enumerate 0 (take (Suc i) config))
                        (initial_state (stem_output width fixed minimal inputs)) = Inr st
                    \<and> model_features m ! Suc i =
                        (''BLOCK'' @ str_nat i @ ''_S'' @ str_int (current_stride st), cur_x st)))
   \<and> map (stage_strides (init_scope 1 1 False strides_config)) strides_config
       = [[2, 1], [2, 1, 1]]
   \<and> strides_run = Inr (the_model strides_run)
   \<and> map fst (model_features (the_model strides_run))
       = [''STEM_S2'', ''BLOCK0_S4'', ''BLOCK1_S8'']"
proof -
  have top: "include_top \<longrightarrow> Some conv_head_channels \<noteq> None" by simp
  have general: "\<exists>m. init_body dispatch_block width depth fixed config (Some conv_head_channels)
              minimal include_top pooling classes ca dr inputs = Inr m
           \<and> map fst (model_features m) =
               ''STEM_S2'' #
               map (\<lambda>(stage_idx, cs). ''BLOCK'' @ str_nat stage_idx @ ''_S'' @ str_int cs)
                 (enumerate 0
                    (cumulative_strides (init_scope width depth minimal config) 2 config))
           \<and> map it_s (model_iterations m) =
               concat (map (stage_strides (init_scope width depth minimal config)) config)
           \<and> hd (model_features m) = (''STEM_S2'', stem_output width fixed minimal inputs)
           \<and> (\<forall>i < length config.
                 \<exists>st. stage_loop dispatch_block (init_scope width depth minimal config)
                        (enumerate 0 (take (Suc i) config))
                        (initial_state (stem_output width fixed minimal inputs)) = Inr st
                    \<and> model_features m ! Suc i =
                        (''BLOCK'' @ str_nat i @ ''_S'' @ str_int (current_stride st), cur_x st))"
  proof -
    obtain m where
      r: "init_body dispatch_block width depth fixed config (Some conv_head_channels) minimal
            include_top pooling classes ca dr inputs = Inr m"
      and its: "model_iterations m = config_trace (init_scope width depth minimal config) config"
      and keys: "map fst (model_features m) = tap_keys (init_scope width depth minimal config) config"
      using init_body_result[OF dispatch_block_total top] by blast
    have "map it_s (model_iterations m) =
            concat (map (stage_strides (init_scope width depth minimal config)) config)"
      by (simp add: its trace_strides_config)
    moreover have "map fst (model_features m) =
               ''STEM_S2'' #
               map (\<lambda>(stage_idx, cs). ''BLOCK'' @ str_nat stage_idx @ ''_S'' @ str_int cs)
                 (enumerate 0
                    (cumulative_strides (init_scope width depth minimal config) 2 config))"
      using keys by (simp add: tap_keys_def block_key_def)
    moreover have "hd (model_features m) = (''STEM_S2'', stem_output width fixed minimal inputs)
           \<and> (\<forall>i < length config.
                 \<exists>st. stage_loop dispatch_block (init_scope width depth minimal config)
                        (enumerate 0 (take (Suc i) config))
                        (initial_state (stem_output width fixed minimal inputs)) = Inr st
                    \<and> model_features m ! Suc i =
                        (''BLOCK'' @ str_nat i @ ''_S'' @ str_int (current_stride st), cur_x st))"
      using init_body_tap_values[OF dispatch_block_total r] by (simp add: block_key_def)
    ultimately show ?thesis using r by (intro exI[of _ m]) simp
  qed
  then show ?thesis
    using strides_example(1) strides_run_result by simp
qed

theorem feature_taps_cumulative_stride_witness:
  "\<exists>m. strides_run = Inr m
      \<and> map fst (model_features m) = [''STEM_S2'', ''BLOCK0_S4'', ''BLOCK1_S8'']
      \<and> map it_s (model_iterations m) = [2, 1, 2, 1, 1]
      \<and> hd (model_features m) = (''STEM_S2'', stem_output 1 False False rgb_input)"
proof -
  have keys: "''STEM_S2'' #
               map (\<lambda>(stage_idx, cs). ''BLOCK'' @ str_nat stage_idx @ ''_S'' @ str_int cs)
                 (enumerate 0
                    (cumulative_strides (init_scope 1 1 False strides_config) 2 strides_config))
              = [''STEM_S2'', ''BLOCK0_S4'', ''BLOCK1_S8'']"
    using strides_example(2) by (simp add: tap_keys_def block_key_def)
  have strides: "concat (map (stage_strides (init_scope 1 1 False strides_config)) strides_config)
                   = [2, 1, 2, 1, 1]"
    by (simp add: strides_example(1))
  obtain m where
    r: "init_body dispatch_block 1 1 False strides_config (Some 1280) False False None
          1000 (Some ''softmax'') 0 rgb_input = Inr m"
    and k: "map fst (model_features m) =
              ''STEM_S2'' #
              map (\<lambda>(stage_idx, cs). ''BLOCK'' @ str_nat stage_idx @ ''_S'' @ str_int cs)
                (enumerate 0
                   (cumulative_strides (init_scope 1 1 False strides_config) 2 strides_config))"
    and s: "map it_s (model_iterations m) =
              concat (map (stage_strides (init_scope 1 1 False strides_config)) strides_config)"
    and h: "hd (model_features m) = (''STEM_S2'', stem_output 1 False False rgb_input)"
    using feature_taps_cumulative_stride[where include_top=False
        and conv_head_channels=1280 and width=1 and depth=1 and fixed=False
        and config=strides_config and minimal=False and pooling=None and classes=1000
        and ca="Some ''softmax''" and dr=0 and inputs=rgb_input,
        THEN conjunct1]
    by (elim exE conjE)
  show ?thesis
    using r k s h unfolding keys strides strides_run_def by (intro exI[of _ m]) simp
qed

lemma minimal_expected_iteration:
  "expected_iteration (init_scope width depth True config) i b (bt, r, k, s, e, c, se, act) j =
     \<lparr>it_stage = i, it_block = b, it_layer = j, it_type = bt,
      it_c = make_divisible (of_int c * width), it_k = min k 3,
      it_s = (if j = 0 then s else 1), it_e = e, it_se = 0, it_act = ''relu'',
      it_name = ''blocks_'' @ str_nat i @ ''_'' @ str_nat (b + j)\<rparr>"
  by (simp add: expected_iteration_def init_scope_def)

lemma minimal_trace_members:
  assumes "it \<in> set (config_trace (init_scope width depth True config) config)"
  shows "it_act it = ''relu'' \<and> it_se it = 0 \<and> it_k it \<le> 3"
proof -
  obtain i cfg where "it \<in> set (stage_trace (init_scope width depth True config) (i, cfg))"
    using assms by (auto simp: config_trace_def)
  then obtain b spec where
    "it \<in> set (block_trace (init_scope width depth True config) i (b, spec))"
    by (auto simp: stage_trace_def)
  moreover obtain bt r k s e c se act where "spec = (bt, r, k, s, e, c, se, act)"
    by (metis prod_cases3 surj_pair)
  ultimately obtain j where
    "it = expected_iteration (init_scope width depth True config) i b
            (bt, r, k, s, e, c, se, act) j"
    by (auto simp: block_trace_def)
  then show ?thesis by (simp add: minimal_expected_iteration)
qed

lemma minimal_small_result:
  "minimal_small = Inr (the_model minimal_small)"
  "hd (model_iterations (the_model minimal_small)) =
     \<lparr>it_stage = 0, it_block = 0, it_layer = 0, it_type = ''ds'', it_c = 16, it_k = 3,
      it_s = 2, it_e = 1, it_se = 0, it_act = ''relu'', it_name = ''blocks_0_0''\<rparr>"
  "model_iterations (the_model minimal_small) ! 3 =
     \<lparr>it_stage = 2, it_block = 0, it_layer = 0, it_type = ''ir'', it_c = 40, it_k = 3,
      it_s = 2, it_e = 4, it_se = 0, it_act = ''relu'', it_name = ''blocks_2_0''\<rparr>"
  by code_simp+

text \<open>
  C6. With \<^verbatim>\<open>minimal=True\<close> the constructor works, for every entry of the configuration
  and every repetition of it, with activation \<^verbatim>\<open>"relu"\<close>, kernel size \<open>min k 3\<close> and
  squeeze-excitation ratio 0, the channel count being \<^verbatim>\<open>make_divisible(c * width)\<close> of
  the entry's own \<open>c\<close>. In the small configuration the first entry (\<open>se_ratio = 0.25\<close>) and the
  first entry of stage 2 (kernel 5, \<^verbatim>\<open>hard_swish\<close>, \<open>se_ratio = 0.25\<close>) are built with ratio 0,
  kernel 3 and \<^verbatim>\<open>relu\<close>.
\<close>

theorem minimal_mode_overrides:
  "(\<exists>m. init_body dispatch_block width depth fixed config (Some conv_head_channels) True
              include_top pooling classes ca dr inputs = Inr m
           \<and> model_iterations m = config_trace (init_scope width depth True config) config
           \<and> (\<forall>it \<in> set (model_iterations m).
                 it_act it = ''relu'' \<and> it_se it = 0 \<and> it_k it \<le> 3))
   \<and> expected_iteration (init_scope width depth True config) i b (bt, r, k, s, e, c, se, act) j =
       \<lparr>it_stage = i, it_block = b, it_layer = j, it_type = bt,
        it_c = make_divisible (of_int c * width), it_k = min k 3,
        it_s = (if j = 0 then s else 1), it_e = e, it_se = 0, it_act = ''relu'',
        it_name = ''blocks_'' @ str_nat i @ ''_'' @ str_nat (b + j)\<rparr>
   \<and> minimal_small = Inr (the_model minimal_small)
   \<and> hd (model_iterations (the_model minimal_small)) =
       \<lparr>it_stage = 0, it_block = 0, it_layer = 0, it_type = ''ds'', it_c = 16, it_k = 3,
        it_s = 2, it_e = 1, it_se = 0, it_act = ''relu'', it_name = ''blocks_0_0''\<rparr>
   \<and> model_iterations (the_model minimal_small) ! 3 =
       \<lparr>it_stage = 2, it_block = 0, it_layer = 0, it_type = ''ir'', it_c = 40, it_k = 3,
        it_s = 2, it_e = 4, it_se = 0, it_act = ''relu'', it_name = ''blocks_2_0''\<rparr>"
proof -
  have top: "include_top \<longrightarrow> Some conv_head_channels \<noteq> None" by simp
  have general: "\<exists>m. init_body dispatch_block width depth fixed config (Some conv_head_channels)
              True include_top pooling classes ca dr inputs = Inr m
           \<and> model_iterations m = config_trace (init_scope width depth True config) config
           \<and> (\<forall>it \<in> set (model_iterations m).
                 it_act it = ''relu'' \<and> it_se it = 0 \<and> it_k it \<le> 3)"
  proof -
    obtain m where
      r: "init_body dispatch_block width depth fixed config (Some conv_head_channels) True
            include_top pooling classes ca dr inputs = Inr m"
      and its: "model_iterations m = config_trace (init_scope width depth True config) config"
      using init_body_result[OF dispatch_block_total top] by blast
    have "\<forall>it \<in> set (model_iterations m). it_act it = ''relu'' \<and> it_se it = 0 \<and> it_k it \<le> 3"
      unfolding its using minimal_trace_members by blast
    then show ?thesis using r its by (intro exI[of _ m]) simp
  qed
  then show ?thesis
    using minimal_expected_iteration minimal_small_result by simp
qed

theorem minimal_mode_overrides_witness:
  "\<exists>m. minimal_small = Inr m
      \<and> model_iterations m
          = config_trace (init_scope 1 1 True DEFAULT_SMALL_CONFIG) DEFAULT_SMALL_CONFIG
      \<and> list_all (\<lambda>it. it_act it = ''relu'' \<and> it_se it = 0 \<and> it_k it \<le> 3) (model_iterations m)
      \<and> length (model_iterations m) = 12"
proof -
  have len: "length (config_trace (init_scope 1 1 True DEFAULT_SMALL_CONFIG) DEFAULT_SMALL_CONFIG)
               = 12"
    by code_simp
  have run: "minimal_small = init_body dispatch_block 1 1 False DEFAULT_SMALL_CONFIG (Some 1024)
               True True None 1000 (Some ''softmax'') 0 rgb_input"
    by (simp add: minimal_small_def MobileNetV3_init_small)
  have "\<exists>m. init_body dispatch_block 1 1 False DEFAULT_SMALL_CONFIG (Some 1024) True True None
              1000 (Some ''softmax'') 0 rgb_input = Inr m
           \<and> model_iterations m
               = config_trace (init_scope 1 1 True DEFAULT_SMALL_CONFIG) DEFAULT_SMALL_CONFIG
           \<and> (\<forall>it \<in> set (model_iterations m).
                 it_act it = ''relu'' \<and> it_se it = 0 \<and> it_k it \<le> 3)"
    by (rule minimal_mode_overrides[where include_top=True and conv_head_channels=1024
        and width=1 and depth=1 and fixed=False and config=DEFAULT_SMALL_CONFIG and pooling=None
        and classes=1000 and ca="Some ''softmax''" and dr=0 and inputs=rgb_input,
        THEN conjunct1])
  then obtain m where
    r: "minimal_small = Inr m"
    and its: "model_iterations m
                = config_trace (init_scope 1 1 True DEFAULT_SMALL_CONFIG) DEFAULT_SMALL_CONFIG"
    and all: "\<forall>it \<in> set (model_iterations m).
                 it_act it = ''relu'' \<and> it_se it = 0 \<and> it_k it \<le> 3"
    unfolding run by blast
  have "list_all (\<lambda>it. it_act it = ''relu'' \<and> it_se it = 0 \<and> it_k it \<le> 3) (model_iterations m)"
    using all by (simp add: list_all_iff)
  moreover have "length (model_iterations m) = 12"
    using its len by simp
  ultimately show ?thesis
    using r its by (intro exI[of _ m]) simp
qed

lemma depth_scaling_runs:
  "small_depth2 = Inr (the_model small_depth2)"
  "block_counts (model_iterations (the_model small_depth2)) 1 2 = [1, 2]"
  "block_counts (model_iterations (the_model small_depth2)) 2 2 = [1, 4]"
  "repeats_121_depth2 = Inr (the_model repeats_121_depth2)"
  "block_counts (model_iterations (the_model repeats_121_depth2)) 0 3 = [1, 4, 2]"
  by code_simp+

lemma depth_scaling_spec:
  "spec_block_counts 2 (DEFAULT_SMALL_CONFIG ! 1) = [1, 1]"
  "spec_block_counts 2 (DEFAULT_SMALL_CONFIG ! 2) = [1, 2]"
  "spec_block_counts 2 (hd repeats_121_config) = [1, 4, 1]"
  by code_simp+

text \<open>
  C1, evaluated on the code. The claim exempts the first and the last entry of each stage from
  depth scaling. The constructor exempts the entries whose index within their stage is 0 or
  \<^verbatim>\<open>len(_config) - 1\<close>, the index of the last stage. With \<^verbatim>\<open>depth=2.0\<close> the small
  configuration (six stages) is expanded to block counts \<open>[1, 2]\<close> in stage 1 and \<open>[1, 4]\<close> in
  stage 2, where the claim gives \<open>[1, 1]\<close> and \<open>[1, 2]\<close>; a configuration of one stage with
  repeats \<open>[1, 2, 1]\<close> is expanded to \<open>[1, 4, 2]\<close>, where the claim gives \<open>[1, 4, 1]\<close>.
\<close>

theorem depth_scaling_last_entry_scaled:
  "small_depth2 = Inr (the_model small_depth2)
   \<and> block_counts (model_iterations (the_model small_depth2)) 1 2 = [1, 2]
   \<and> spec_block_counts 2 (DEFAULT_SMALL_CONFIG ! 1) = [1, 1]
   \<and> block_counts (model_iterations (the_model small_depth2)) 2 2 = [1, 4]
   \<and> spec_block_counts 2 (DEFAULT_SMALL_CONFIG ! 2) = [1, 2]
   \<and> repeats_121_depth2 = Inr (the_model repeats_121_depth2)
   \<and> block_counts (model_iterations (the_model repeats_121_depth2)) 0 3 = [1, 4, 2]
   \<and> spec_block_counts 2 (hd repeats_121_config) = [1, 4, 1]"
  using depth_scaling_runs depth_scaling_spec by simp

lemma dispatch_block_unknown:
  "block_type \<notin> {''ds'', ''dsa'', ''ir'', ''cn''} \<Longrightarrow>
   dispatch_block x block_type c k s e se act name = Inr x"
  by (simp add: dispatch_block_def)

lemma legacy_dispatch_block_unknown:
  "block_type \<notin> {''ds'', ''ir'', ''cn''} \<Longrightarrow>
   legacy_dispatch_block x block_type c k s e se act name = Inr x"
  by (simp add: legacy_dispatch_block_def)

lemma MobileNetV3_init_unknown_config:
  "config_name \<notin> {''small'', ''large'', ''lcnet''} \<Longrightarrow>
   MobileNetV3_init width depth fixed config_name minimal include_top pooling classes ca dr
     inputs = Inl ValueError"
  by (simp add: MobileNetV3_init_def)

lemma legacy_init_list:
  "\<exists>m. legacy_MobileNetV3_init width depth fixed (ConfigList config) minimal False pooling
          classes ca dr inputs = Inr m
       \<and> model_iterations m = config_trace (init_scope width depth minimal config) config
       \<and> map fst (model_features m) = tap_keys (init_scope width depth minimal config) config"
proof -
  have top: "False \<longrightarrow> (None :: int option) \<noteq> None" by simp
  obtain m where
    "init_body legacy_dispatch_block width depth fixed config None minimal False pooling classes
       ca dr inputs = Inr m"
    and "model_iterations m = config_trace (init_scope width depth minimal config) config"
    and "map fst (model_features m) = tap_keys (init_scope width depth minimal config) config"
    using init_body_result[OF legacy_dispatch_block_total top] by blast
  then show ?thesis
    by (intro exI[of _ m]) (simp add: legacy_MobileNetV3_init_def)
qed

lemma unknown_kind_run_result:
  "unknown_kind_run =
     Inr \<lparr>outputs = \<lparr>shape_channels = 16,
                     graph = [Conv2DBlock (Some 16) 3 2 (Some ''hard_swish'') False ''conv_stem'']\<rparr>,
          model_features =
            [(''STEM_S2'', \<lparr>shape_channels = 16,
                graph = [Conv2DBlock (Some 16) 3 2 (Some ''hard_swish'') False ''conv_stem'']\<rparr>),
             (''BLOCK0_S4'', \<lparr>shape_channels = 16,
                graph = [Conv2DBlock (Some 16) 3 2 (Some ''hard_swish'') False ''conv_stem'']\<rparr>)],
          model_iterations =
            [\<lparr>it_stage = 0, it_block = 0, it_layer = 0, it_type = ''xx'', it_c = 16, it_k = 3,
              it_s = 2, it_e = 1, it_se = 0, it_act = ''relu'', it_name = ''blocks_0_0''\<rparr>]\<rparr>"
  by code_simp

text \<open>
  C2, as amended. An entry whose kind is not recognised raises nothing: the dispatch of either
  constructor returns the tensor unchanged, and for every stage configuration the block loop
  runs through all entries (the trace holds every repetition of every entry, whatever its
  kind, and the strides of all of them enter the keys of the feature taps) and the constructor
  returns a model: the one of \<^verbatim>\<open>kimm/_src\<close> for every configuration, the one of
  \<^verbatim>\<open>kimm/models\<close> for every list of stages when \<^verbatim>\<open>include_top\<close> is false. The configuration error of the constructor of \<^verbatim>\<open>kimm/_src\<close> is
  the \<^verbatim>\<open>ValueError\<close> for a configuration name other than \<^verbatim>\<open>small\<close>, \<^verbatim>\<open>large\<close> and
  \<^verbatim>\<open>lcnet\<close>.
\<close>

theorem unknown_block_kind_is_skipped:
  "(block_type \<notin> {''ds'', ''dsa'', ''ir'', ''cn''} \<longrightarrow>
      dispatch_block x block_type c k s e se act name = Inr x)
   \<and> (block_type \<notin> {''ds'', ''ir'', ''cn''} \<longrightarrow>
        legacy_dispatch_block x block_type c k s e se act name = Inr x)
   \<and> (\<exists>m. init_body dispatch_block width depth fixed config (Some conv_head_channels) minimal
              include_top pooling classes ca dr inputs = Inr m
           \<and> model_iterations m = config_trace (init_scope width depth minimal config) config
           \<and> map fst (model_features m)
               = tap_keys (init_scope width depth minimal config) config)
   \<and> (\<exists>m. legacy_MobileNetV3_init width depth fixed (ConfigList config) minimal False pooling
              classes ca dr inputs = Inr m
           \<and> model_iterations m = config_trace (init_scope width depth minimal config) config
           \<and> map fst (model_features m)
               = tap_keys (init_scope width depth minimal config) config)
   \<and> (config_name \<notin> {''small'', ''large'', ''lcnet''} \<longrightarrow>
        MobileNetV3_init width depth fixed config_name minimal include_top pooling classes ca dr
          inputs = Inl ValueError)"
proof -
  have top: "include_top \<longrightarrow> Some conv_head_channels \<noteq> None" by simp
  have "\<exists>m. init_body dispatch_block width depth fixed config (Some conv_head_channels) minimal
                include_top pooling classes ca dr inputs = Inr m
             \<and> model_iterations m = config_trace (init_scope width depth minimal config) config
             \<and> map fst (model_features m)
                 = tap_keys (init_scope width depth minimal config) config"
    using init_body_result[OF dispatch_block_total top] by blast
  then show ?thesis
    using dispatch_block_unknown legacy_dispatch_block_unknown legacy_init_list
      MobileNetV3_init_unknown_config
    by simp
qed

theorem unknown_block_kind_is_skipped_witness:
  "''xx'' \<notin> {''ds'', ''dsa'', ''ir'', ''cn''}
   \<and> dispatch_block wide_input ''xx'' 16 3 2 1 0 ''relu'' ''blocks_0_0'' = Inr wide_input
   \<and> legacy_dispatch_block wide_input ''xx'' 16 3 2 1 0 ''relu'' ''blocks_0_0'' = Inr wide_input
   \<and> (\<exists>m. unknown_kind_run = Inr m
           \<and> model_iterations m
               = config_trace (init_scope 1 1 False unknown_kind_config) unknown_kind_config
           \<and> map fst (model_features m) = [''STEM_S2'', ''BLOCK0_S4''])
   \<and> length (config_trace (init_scope 1 1 False unknown_kind_config) unknown_kind_config) = 1
   \<and> MobileNetV3_init 1 1 False ''tiny'' False True None 1000 (Some ''softmax'') 0 rgb_input
       = Inl ValueError"
proof -
  have len: "length (config_trace (init_scope 1 1 False unknown_kind_config) unknown_kind_config)
               = 1"
    by code_simp
  have keys: "tap_keys (init_scope 1 1 False unknown_kind_config) unknown_kind_config
                = [''STEM_S2'', ''BLOCK0_S4'']"
    by code_simp
  show ?thesis
    using len unknown_block_kind_is_skipped[where block_type="''xx''" and x=wide_input and c=16
        and k=3 and s=2 and e=1 and se=0 and act="''relu''" and name="''blocks_0_0''"
        and include_top=True and conv_head_channels=1280 and width=1 and depth=1
        and fixed=False and config=unknown_kind_config and minimal=False and pooling=None
        and classes=1000 and ca="Some ''softmax''" and dr=0 and inputs=rgb_input
        and config_name="''tiny''"]
    unfolding unknown_kind_run_def keys by simp
qed

text \<open>
  The statement of C2 without the amendment fails on a configuration whose only entry has the
  kind \<^verbatim>\<open>xx\<close>: the constructor of \<^verbatim>\<open>kimm/models/mobilenet_v3.py\<close>, called with this list
  and \<^verbatim>\<open>include_top=False\<close>, returns a model whose output is the stem's output.
\<close>

theorem unknown_block_kind_counterexample:
  "unknown_kind_config = [[(''xx'', 1, 3, 2, 1, 16, 0, ''relu'')]]
   \<and> unknown_kind_run =
     Inr \<lparr>outputs = \<lparr>shape_channels = 16,
                     graph = [Conv2DBlock (Some 16) 3 2 (Some ''hard_swish'') False ''conv_stem'']\<rparr>,
          model_features =
            [(''STEM_S2'', \<lparr>shape_channels = 16,
                graph = [Conv2DBlock (Some 16) 3 2 (Some ''hard_swish'') False ''conv_stem'']\<rparr>),
             (''BLOCK0_S4'', \<lparr>shape_channels = 16,
                graph = [Conv2DBlock (Some 16) 3 2 (Some ''hard_swish'') False ''conv_stem'']\<rparr>)],
          model_iterations =
            [\<lparr>it_stage = 0, it_block = 0, it_layer = 0, it_type = ''xx'', it_c = 16, it_k = 3,
              it_s = 2, it_e = 1, it_se = 0, it_act = ''relu'', it_name = ''blocks_0_0''\<rparr>]\<rparr>"
  using unknown_kind_run_result by (simp add: unknown_kind_config_def)

end
